theory Spec2Isabelle
  imports Complex_Main "HOL-Library.AList"
begin

section \<open>Values of the source language\<close>

text \<open>
  The program is the React component of \<^verbatim>\<open>src/App.tsx\<close>; the part embedded here is
  \<^verbatim>\<open>groupBySum\<close> and the body of \<^verbatim>\<open>processData\<close> from the parsed ledgers to the
  report rows (lines 58-68 and 88-280).

  A string is its sequence of UTF-16 code units. A number is an exact rational: the
  arithmetic of the source (\<^verbatim>\<open>+\<close>, \<^verbatim>\<open>-\<close>, \<^verbatim>\<open>*\<close>, \<^verbatim>\<open>/\<close>, \<^verbatim>\<open>Math.floor\<close>) is
  read without the rounding of IEEE doubles and without infinities; the one non-number
  the source can meet, the \<^verbatim>\<open>NaN\<close> of a failed \<^verbatim>\<open>parseFloat\<close>, is \<open>None\<close> and is
  replaced by 0 at once, as \<^verbatim>\<open>|| 0\<close> does. A cell of a parsed row is a string, or absent
  (\<^verbatim>\<open>undefined\<close>) when the row has no such column. The redistribution of a tax group and
  the two targeting passes are embedded a second time over binary64 values, with rounding,
  infinities and \<^verbatim>\<open>NaN\<close>, for the two properties that depend on them.
\<close>

type_synonym jsstring = "nat list"
type_synonym number = rat
type_synonym row = "jsstring \<rightharpoonup> jsstring"

definition str :: "string \<Rightarrow> jsstring" where
  "str s = map of_char s"

record ParsedCSV =
  data :: "row list"
  headers :: "jsstring list"

datatype error = TypeError

text \<open>White space and line terminators of ECMAScript, as \<^verbatim>\<open>trim\<close> and \<^verbatim>\<open>parseFloat\<close> strip them.\<close>

definition isWhiteSpace :: "nat \<Rightarrow> bool" where
  "isWhiteSpace c \<longleftrightarrow>
     c \<in> {0x9, 0xA, 0xB, 0xC, 0xD, 0x20, 0xA0, 0x1680, 0x2028, 0x2029, 0x202F, 0x205F, 0x3000, 0xFEFF}
     \<or> (0x2000 \<le> c \<and> c \<le> 0x200A)"

definition trim :: "jsstring \<Rightarrow> jsstring" where
  "trim s = rev (dropWhile isWhiteSpace (rev (dropWhile isWhiteSpace s)))"

text \<open>\<^verbatim>\<open>String(v)\<close> and the property key of \<^verbatim>\<open>row[v]\<close>: \<^verbatim>\<open>undefined\<close> becomes the text "undefined".\<close>

definition ToString :: "jsstring option \<Rightarrow> jsstring" where
  "ToString v = (case v of None \<Rightarrow> str ''undefined'' | Some s \<Rightarrow> s)"

text \<open>\<^verbatim>\<open>v || ''\<close> on a cell: an absent cell and the empty string are both falsy.\<close>

definition or_empty :: "jsstring option \<Rightarrow> jsstring" where
  "or_empty v = (case v of None \<Rightarrow> [] | Some s \<Rightarrow> s)"

text \<open>\<^verbatim>\<open>x || 0\<close> on the result of \<^verbatim>\<open>parseFloat\<close>: \<^verbatim>\<open>NaN\<close> and 0 are falsy.\<close>

definition or0 :: "number option \<Rightarrow> number" where
  "or0 x = (case x of None \<Rightarrow> 0 | Some v \<Rightarrow> v)"

subsection \<open>parseFloat\<close>

text \<open>
  \<^verbatim>\<open>parseFloat\<close> reads the longest prefix of the trimmed text that is a decimal literal
  (sign, digits, fraction, exponent) and gives \<^verbatim>\<open>NaN\<close> when there is none. The value
  is the exact decimal one. The literal \<^verbatim>\<open>Infinity\<close> has no rational value and is
  not read as a number here: \<open>parseFloat v = None\<close> says that \<open>v\<close> has no finite decimal
  prefix, and \<open>parsesNaN v\<close> below says that the \<^verbatim>\<open>parseFloat\<close> of the source is \<^verbatim>\<open>NaN\<close>.
\<close>

definition isDigit :: "nat \<Rightarrow> bool" where
  "isDigit c \<longleftrightarrow> 0x30 \<le> c \<and> c \<le> 0x39"

definition digitsValue :: "jsstring \<Rightarrow> nat" where
  "digitsValue ds = foldl (\<lambda>acc c. 10 * acc + (c - 0x30)) 0 ds"

definition exponentPart :: "jsstring \<Rightarrow> int" where
  "exponentPart s =
     (case s of
        [] \<Rightarrow> 0
      | c # t \<Rightarrow>
          if c = 0x65 \<or> c = 0x45 then
            (case t of
               [] \<Rightarrow> 0
             | d # u \<Rightarrow>
                 if d = 0x2D then - int (digitsValue (takeWhile isDigit u))
                 else if d = 0x2B then int (digitsValue (takeWhile isDigit u))
                 else int (digitsValue (takeWhile isDigit t)))
          else 0)"

definition parseFloat :: "jsstring option \<Rightarrow> number option" where
  "parseFloat v =
     (let trimmed = dropWhile isWhiteSpace (ToString v);
          negative = (case trimmed of [] \<Rightarrow> False | c # _ \<Rightarrow> c = 0x2D);
          unsigned = (case trimmed of [] \<Rightarrow> [] | c # t \<Rightarrow> if c = 0x2D \<or> c = 0x2B then t else trimmed);
          intDigits = takeWhile isDigit unsigned;
          afterInt = dropWhile isDigit unsigned;
          hasPoint = (case afterInt of [] \<Rightarrow> False | c # _ \<Rightarrow> c = 0x2E);
          fracDigits = (if hasPoint then takeWhile isDigit (tl afterInt) else []);
          afterFrac = (if hasPoint then dropWhile isDigit (tl afterInt) else afterInt);
          mantissa = of_nat (digitsValue intDigits) + of_nat (digitsValue fracDigits) / 10 ^ length fracDigits;
          e = exponentPart afterFrac;
          magnitude = (if 0 \<le> e then mantissa * 10 ^ nat e else mantissa / 10 ^ nat (- e))
      in if intDigits = [] \<and> fracDigits = [] then None
         else Some (if negative then - magnitude else magnitude))"

text \<open>
  After white space and an optional sign the text begins with \<^verbatim>\<open>Infinity\<close>; the source
  reads such a cell as an infinite number. Every other cell without a decimal prefix, and the
  absent cell (\<^verbatim>\<open>parseFloat(undefined)\<close>), gives \<^verbatim>\<open>NaN\<close>.
\<close>

definition infinityLiteral :: "jsstring option \<Rightarrow> bool" where
  "infinityLiteral v =
     (let trimmed = dropWhile isWhiteSpace (ToString v);
          unsigned = (case trimmed of [] \<Rightarrow> [] | c # t \<Rightarrow> if c = 0x2D \<or> c = 0x2B then t else trimmed)
      in take 8 unsigned = str ''Infinity'')"

definition parsesNaN :: "jsstring option \<Rightarrow> bool" where
  "parsesNaN v \<longleftrightarrow> parseFloat v = None \<and> \<not> infinityLiteral v"

section \<open>Column names\<close>

definition COL_S_CODE :: jsstring where
  "COL_S_CODE = [0x06A9, 0x062F, 0x0020, 0x06A9, 0x0627, 0x0644, 0x0627]"

definition COL_S_QTY :: jsstring where
  "COL_S_QTY = [0x062A, 0x0639, 0x062F, 0x0627, 0x062F, 0x0020, 0x0648, 0x0627, 0x062D, 0x062F, 0x0020, 0x062C, 0x0632]"

definition COL_S_TAX_PCT :: jsstring where
  "COL_S_TAX_PCT = [0x062F, 0x0631, 0x0635, 0x062F, 0x0020, 0x0645, 0x0627, 0x0644, 0x06CC, 0x0627, 0x062A]"

definition COL_S_TOTAL :: jsstring where
  "COL_S_TOTAL = [0x0641, 0x0631, 0x0648, 0x0634]"

definition COL_S_TAX_AMT :: jsstring where
  "COL_S_TAX_AMT = [0x062C, 0x0645, 0x0639, 0x0020, 0x0645, 0x0627, 0x0644, 0x06CC, 0x0627, 0x062A, 0x0020, 0x0633, 0x0637, 0x0631]"

definition possible :: "jsstring list" where
  "possible =
     [[0x062A, 0x0639, 0x062F, 0x0627, 0x062F, 0x0020, 0x0648, 0x0627, 0x062D, 0x062F, 0x0020, 0x062C, 0x0632],
      [0x062A, 0x0639, 0x062F, 0x0627, 0x062F],
      [0x0645, 0x0627, 0x0646, 0x062F, 0x0647, 0x0020, 0x062A, 0x0639, 0x062F, 0x0627, 0x062F, 0x06CC]]"

section \<open>Aggregation\<close>

text \<open>
  A \<^verbatim>\<open>Map\<close> is an association list in insertion order: \<^verbatim>\<open>set\<close> on a present key
  replaces the value in place, on a new key appends (\<^const>\<open>AList.update\<close>);
  \<^verbatim>\<open>get\<close> is \<^const>\<open>map_of\<close>. A \<^verbatim>\<open>Set\<close> is a list without repetition in insertion order.
\<close>

definition get_or0 :: "(jsstring \<times> number) list \<Rightarrow> jsstring \<Rightarrow> number" where
  "get_or0 m k = (case map_of m k of None \<Rightarrow> 0 | Some v \<Rightarrow> v)"

definition groupBySum_step :: "jsstring \<Rightarrow> jsstring option \<Rightarrow> (jsstring \<times> number) list \<Rightarrow> row \<Rightarrow> (jsstring \<times> number) list" where
  "groupBySum_step groupCol sumCol result row =
     (let key = or_empty (row groupCol);
          val = or0 (parseFloat (row (ToString sumCol)))
      in if key \<noteq> [] then AList.update key (get_or0 result key + val) result else result)"

definition groupBySum :: "row list \<Rightarrow> jsstring \<Rightarrow> jsstring option \<Rightarrow> (jsstring \<times> number) list" where
  "groupBySum rows groupCol sumCol = foldl (groupBySum_step groupCol sumCol) [] rows"

text \<open>
  \<^verbatim>\<open>getQtyCol\<close>: the first candidate for which some header matches after trimming gives
  that header (\<^verbatim>\<open>if (found)\<close> asks for a non-empty one); otherwise \<^verbatim>\<open>df.headers[1]\<close>,
  which is \<^verbatim>\<open>undefined\<close> (\<open>None\<close>) when there are fewer than two headers. No path throws.
\<close>

fun getQtyCol_loop :: "jsstring list \<Rightarrow> jsstring list \<Rightarrow> jsstring option" where
  "getQtyCol_loop hs [] = (if 1 < length hs then Some (hs ! 1) else None)"
| "getQtyCol_loop hs (p # ps) =
     (case find (\<lambda>h. trim h = p) hs of
        Some found \<Rightarrow> if found \<noteq> [] then Some found else getQtyCol_loop hs ps
      | None \<Rightarrow> getQtyCol_loop hs ps)"

definition getQtyCol :: "ParsedCSV \<Rightarrow> jsstring option" where
  "getQtyCol df = getQtyCol_loop (headers df) possible"

definition Set_add :: "'a list \<Rightarrow> 'a \<Rightarrow> 'a list" where
  "Set_add s x = (if x \<in> set s then s else s @ [x])"

definition new_Set :: "'a list \<Rightarrow> 'a list" where
  "new_Set xs = foldl Set_add [] xs"

text \<open>
  Line 119: the raw code cells of the sales rows that are truthy, that is, present and not
  the empty string. Lines 115-120 put them, after the keys of the three inventory sums, into
  one \<^verbatim>\<open>Set\<close>.
\<close>

definition sales_codes :: "row list \<Rightarrow> jsstring list" where
  "sales_codes rows = [c. Some c \<leftarrow> map (\<lambda>r. r COL_S_CODE) rows, c \<noteq> []]"

definition allCodes_of ::
  "(jsstring \<times> number) list \<Rightarrow> (jsstring \<times> number) list \<Rightarrow> (jsstring \<times> number) list \<Rightarrow> row list \<Rightarrow> jsstring list" where
  "allCodes_of openSum purchSum retSum salesRows =
     new_Set (map fst openSum @ map fst purchSum @ map fst retSum @ sales_codes salesRows)"

section \<open>Inventory and sales per product code\<close>

record inv =
  inv_code :: jsstring
  inv_q_open :: number
  inv_q_purch :: number
  inv_q_ret :: number
  inv_available :: number

definition inventory_entry ::
  "(jsstring \<times> number) list \<Rightarrow> (jsstring \<times> number) list \<Rightarrow> (jsstring \<times> number) list \<Rightarrow> jsstring \<Rightarrow> inv" where
  "inventory_entry openSum purchSum retSum c =
     (let q_open = get_or0 openSum c;
          q_purch = get_or0 purchSum c;
          q_ret = get_or0 retSum c
      in \<lparr>inv_code = c, inv_q_open = q_open, inv_q_purch = q_purch, inv_q_ret = q_ret,
          inv_available = q_open + q_purch - q_ret\<rparr>)"

definition build_inventory ::
  "(jsstring \<times> number) list \<Rightarrow> (jsstring \<times> number) list \<Rightarrow> (jsstring \<times> number) list \<Rightarrow> jsstring list \<Rightarrow> (jsstring \<times> inv) list" where
  "build_inventory openSum purchSum retSum allCodes =
     foldl (\<lambda>inventory c. AList.update c (inventory_entry openSum purchSum retSum c) inventory) [] allCodes"

record agg =
  agg_qty :: number
  agg_total :: number
  agg_tax :: number
  agg_tax_pct :: number

text \<open>
  One sales row (lines 141-161). The entry of \<^verbatim>\<open>salesAgg\<close> is created with the row's tax
  percentage when the code is new and then increased in place; here the entry read
  (or the fresh one) is written back increased, which leaves the same map.
\<close>

definition sales_step ::
  "(jsstring \<times> agg) list \<times> (jsstring \<times> number) list \<Rightarrow> row \<Rightarrow> (jsstring \<times> agg) list \<times> (jsstring \<times> number) list" where
  "sales_step st row =
     (let salesAgg = fst st;
          taxMap = snd st;
          c = or_empty (row COL_S_CODE)
      in if c = [] then st
         else
           let qty = or0 (parseFloat (row COL_S_QTY));
               total = or0 (parseFloat (row COL_S_TOTAL));
               tax = or0 (parseFloat (row COL_S_TAX_AMT));
               taxPct = or0 (parseFloat (row COL_S_TAX_PCT));
               a = (case map_of salesAgg c of
                      None \<Rightarrow> \<lparr>agg_qty = 0, agg_total = 0, agg_tax = 0, agg_tax_pct = taxPct\<rparr>
                    | Some a \<Rightarrow> a)
           in (AList.update c (a\<lparr>agg_qty := agg_qty a + qty, agg_total := agg_total a + total,
                                  agg_tax := agg_tax a + tax\<rparr>) salesAgg,
               if map_of taxMap c = None then AList.update c taxPct taxMap else taxMap))"

definition aggregate_sales :: "row list \<Rightarrow> (jsstring \<times> agg) list \<times> (jsstring \<times> number) list" where
  "aggregate_sales rows = foldl sales_step ([], []) rows"

text \<open>
  A record of \<^verbatim>\<open>finalData\<close>. The fields \<open>s_qty\<close>, \<open>s_total\<close>, \<open>s_tax_amt\<close> and \<open>s_tax_pct\<close>
  are the properties keyed by \<^verbatim>\<open>COL_S_QTY\<close>, \<^verbatim>\<open>COL_S_TOTAL\<close>, \<^verbatim>\<open>COL_S_TAX_AMT\<close> and
  \<^verbatim>\<open>COL_S_TAX_PCT\<close>. The last three fields are the properties the source creates by
  assignment during targeting and reporting (final sales, final tax, final ending
  balance), each written on every record before it is read; they start at 0 here.
\<close>

record item =
  code :: jsstring
  q_open :: number
  q_purch :: number
  q_ret :: number
  available :: number
  s_qty :: number
  s_total :: number
  s_tax_amt :: number
  s_tax_pct :: number
  ending :: number
  sales_final :: number
  tax_final :: number
  final_ending :: number

definition merge_row :: "(jsstring \<times> inv) list \<Rightarrow> (jsstring \<times> agg) list \<Rightarrow> (jsstring \<times> number) list \<Rightarrow> jsstring \<Rightarrow> item" where
  "merge_row inventory salesAgg taxMap c =
     (let i = map_of inventory c;
          sales = (case map_of salesAgg c of
                     None \<Rightarrow> \<lparr>agg_qty = 0, agg_total = 0, agg_tax = 0, agg_tax_pct = 0\<rparr>
                   | Some s \<Rightarrow> s);
          avail = (case i of None \<Rightarrow> 0 | Some x \<Rightarrow> inv_available x)
      in \<lparr>code = c,
          q_open = (case i of None \<Rightarrow> 0 | Some x \<Rightarrow> inv_q_open x),
          q_purch = (case i of None \<Rightarrow> 0 | Some x \<Rightarrow> inv_q_purch x),
          q_ret = (case i of None \<Rightarrow> 0 | Some x \<Rightarrow> inv_q_ret x),
          available = avail,
          s_qty = agg_qty sales,
          s_total = agg_total sales,
          s_tax_amt = agg_tax sales,
          s_tax_pct = get_or0 taxMap c,
          ending = avail - agg_qty sales,
          sales_final = 0, tax_final = 0, final_ending = 0\<rparr>)"

definition mergeData :: "ParsedCSV \<Rightarrow> ParsedCSV \<Rightarrow> ParsedCSV \<Rightarrow> ParsedCSV \<Rightarrow> item list" where
  "mergeData dfOpen dfPurch dfRet dfSales =
     (let openSum = groupBySum (data dfOpen) COL_S_CODE (getQtyCol dfOpen);
          purchSum = groupBySum (data dfPurch) COL_S_CODE (getQtyCol dfPurch);
          retSum = groupBySum (data dfRet) COL_S_CODE (getQtyCol dfRet);
          allCodes = allCodes_of openSum purchSum retSum (data dfSales);
          inventory = build_inventory openSum purchSum retSum allCodes;
          st = aggregate_sales (data dfSales)
      in map (merge_row inventory (fst st) (snd st)) allCodes)"

section \<open>Redistribution of negative ending balances\<close>

text \<open>\<^verbatim>\<open>arr.reduce((sum, r) => sum + f(r), 0)\<close>.\<close>

definition reduce_sum :: "('a \<Rightarrow> number) \<Rightarrow> 'a list \<Rightarrow> number" where
  "reduce_sum f arr = foldl (\<lambda>sum r. sum + f r) 0 arr"

text \<open>
  \<^verbatim>\<open>grpIndices\<close> holds copies of the records of one tax group, each with its index in
  \<^verbatim>\<open>finalData\<close>; \<^verbatim>\<open>negItems\<close> and \<^verbatim>\<open>posItems\<close> are filtered from these copies, so
  the values read from an \<^verbatim>\<open>item\<close> in the two loops are those of the moment the
  group was entered, while the writes go to the live record \<^verbatim>\<open>finalData[item.index]\<close>.
\<close>

definition grpIndices :: "item list \<Rightarrow> number \<Rightarrow> (item \<times> nat) list" where
  "grpIndices finalData taxGrp =
     filter (\<lambda>ri. s_tax_pct (fst ri) = taxGrp) (zip finalData [0..<length finalData])"

definition negItems :: "item list \<Rightarrow> number \<Rightarrow> (item \<times> nat) list" where
  "negItems finalData taxGrp = filter (\<lambda>ri. ending (fst ri) < 0) (grpIndices finalData taxGrp)"

definition posItems :: "item list \<Rightarrow> number \<Rightarrow> (item \<times> nat) list" where
  "posItems finalData taxGrp =
     filter (\<lambda>ri. ending (fst ri) > 0 \<and> s_total (fst ri) > 0) (grpIndices finalData taxGrp)"

text \<open>Line 202: \<^verbatim>\<open>Math.min(1.0, Math.abs(item.ending) / (item[COL_S_QTY] || 1))\<close>.\<close>

definition deficitRatio :: "item \<Rightarrow> number" where
  "deficitRatio it = min 1 (\<bar>ending it\<bar> / (if s_qty it \<noteq> 0 then s_qty it else 1))"

definition moveQty :: "item \<Rightarrow> number" where
  "moveQty it = s_qty it * deficitRatio it"

definition moveSales :: "item \<Rightarrow> number" where
  "moveSales it = s_total it * deficitRatio it"

definition moveTax :: "item \<Rightarrow> number" where
  "moveTax it = s_tax_amt it * deficitRatio it"

text \<open>
  The state of the loop over \<^verbatim>\<open>negItems\<close> (lines 201-215): \<^verbatim>\<open>finalData\<close> and the three
  running totals.
\<close>

record moves =
  mv_data :: "item list"
  totalMoveQty :: number
  totalMoveSales :: number
  totalMoveTax :: number

definition subtract_at :: "item list \<Rightarrow> nat \<Rightarrow> item \<Rightarrow> item list" where
  "subtract_at finalData i it =
     finalData[i := (finalData ! i)\<lparr>s_qty := s_qty (finalData ! i) - moveQty it,
                                     s_total := s_total (finalData ! i) - moveSales it,
                                     s_tax_amt := s_tax_amt (finalData ! i) - moveTax it\<rparr>]"

definition neg_step :: "moves \<Rightarrow> item \<times> nat \<Rightarrow> moves" where
  "neg_step m ri =
     \<lparr>mv_data = subtract_at (mv_data m) (snd ri) (fst ri),
      totalMoveQty = totalMoveQty m + moveQty (fst ri),
      totalMoveSales = totalMoveSales m + moveSales (fst ri),
      totalMoveTax = totalMoveTax m + moveTax (fst ri)\<rparr>"

text \<open>The loop over \<^verbatim>\<open>posItems\<close> (lines 220-225), with the totals of the first loop.\<close>

definition pos_step :: "number \<Rightarrow> number \<Rightarrow> number \<Rightarrow> number \<Rightarrow> item list \<Rightarrow> item \<times> nat \<Rightarrow> item list" where
  "pos_step totalPosSales tq ts tt finalData ri =
     (let weight = s_total (fst ri) / totalPosSales;
          i = snd ri
      in finalData[i := (finalData ! i)\<lparr>s_qty := s_qty (finalData ! i) + weight * tq,
                                         s_total := s_total (finalData ! i) + weight * ts,
                                         s_tax_amt := s_tax_amt (finalData ! i) + weight * tt\<rparr>])"

definition redistribute_group :: "item list \<Rightarrow> number \<Rightarrow> item list" where
  "redistribute_group finalData taxGrp =
     (let neg = negItems finalData taxGrp;
          pos = posItems finalData taxGrp
      in if length neg > 0 \<and> length pos > 0 then
           let m = foldl neg_step \<lparr>mv_data = finalData, totalMoveQty = 0, totalMoveSales = 0, totalMoveTax = 0\<rparr> neg;
               totalPosSales = reduce_sum (\<lambda>ri. s_total (fst ri)) pos
           in foldl (pos_step totalPosSales (totalMoveQty m) (totalMoveSales m) (totalMoveTax m)) (mv_data m) pos
         else finalData)"

definition taxGroups :: "item list \<Rightarrow> number list" where
  "taxGroups finalData = new_Set (map s_tax_pct finalData)"

definition redistribute :: "item list \<Rightarrow> item list" where
  "redistribute finalData = foldl redistribute_group finalData (taxGroups finalData)"

section \<open>Targeting\<close>

text \<open>
  \<^verbatim>\<open>arr.reduce((maxIdx, r, i, arr) => f(r) > f(arr[maxIdx]) ? i : maxIdx, 0)\<close>: the index
  of the first largest value, and 0 on the empty array.
\<close>

definition reduce_maxIdx :: "(item \<Rightarrow> number) \<Rightarrow> item list \<Rightarrow> nat" where
  "reduce_maxIdx f arr =
     foldl (\<lambda>maxIdx ri. if f (fst ri) > f (arr ! maxIdx) then snd ri else maxIdx) 0
       (zip arr [0..<length arr])"

text \<open>
  \<^verbatim>\<open>finalData[i][key] += d\<close>: reading a property of \<^verbatim>\<open>finalData[i]\<close> when \<open>i\<close> is out of
  range throws a \<^verbatim>\<open>TypeError\<close>.
\<close>

definition modify_at :: "item list \<Rightarrow> nat \<Rightarrow> (item \<Rightarrow> item) \<Rightarrow> error + item list" where
  "modify_at arr i f = (if i < length arr then Inr (arr[i := f (arr ! i)]) else Inl TypeError)"

definition sales_scaled :: "number \<Rightarrow> item list \<Rightarrow> item list" where
  "sales_scaled targetSales finalData =
     (let totalSales = reduce_sum s_total finalData;
          salesRatio = (if totalSales > 0 then targetSales / totalSales else 1)
      in map (\<lambda>r. r\<lparr>sales_final := of_int \<lfloor>s_total r * salesRatio\<rfloor>\<rparr>) finalData)"

definition sales_targeting :: "number \<Rightarrow> item list \<Rightarrow> error + item list" where
  "sales_targeting targetSales finalData =
     (let scaled = sales_scaled targetSales finalData;
          currentTotalSales = reduce_sum sales_final scaled;
          salesDiff = targetSales - currentTotalSales
      in if salesDiff \<noteq> 0 then
           modify_at scaled (reduce_maxIdx sales_final scaled)
             (\<lambda>r. r\<lparr>sales_final := sales_final r + salesDiff\<rparr>)
         else Inr scaled)"

definition taxableItems :: "item list \<Rightarrow> item list" where
  "taxableItems finalData = filter (\<lambda>r. s_tax_pct r > 0) finalData"

definition tax_scaled :: "number \<Rightarrow> item list \<Rightarrow> item list" where
  "tax_scaled targetTax finalData =
     (let totalTax = reduce_sum s_tax_amt (taxableItems finalData);
          taxRatio = (if totalTax > 0 then targetTax / totalTax else 1)
      in map (\<lambda>r. if s_tax_pct r > 0 then r\<lparr>tax_final := of_int \<lfloor>s_tax_amt r * taxRatio\<rfloor>\<rparr>
                   else r\<lparr>tax_final := 0\<rparr>) finalData)"

definition tax_targeting :: "number \<Rightarrow> item list \<Rightarrow> error + item list" where
  "tax_targeting targetTax finalData =
     (let scaled = tax_scaled targetTax finalData;
          currentTotalTax = reduce_sum tax_final scaled;
          taxDiff = targetTax - currentTotalTax
      in if taxDiff \<noteq> 0 \<and> length (taxableItems finalData) > 0 then
           modify_at scaled (reduce_maxIdx tax_final scaled)
             (\<lambda>r. r\<lparr>tax_final := tax_final r + taxDiff\<rparr>)
         else Inr scaled)"

section \<open>Report\<close>

record report_row =
  r_code :: jsstring
  r_open :: number
  r_purch :: number
  r_ret :: number
  r_qty :: number
  r_sales :: number
  r_tax :: number
  r_ending :: number

definition set_final_ending :: "item \<Rightarrow> item" where
  "set_final_ending r = r\<lparr>final_ending := available r - s_qty r\<rparr>"

definition report_of :: "item \<Rightarrow> report_row" where
  "report_of r =
     \<lparr>r_code = code r, r_open = q_open r, r_purch = q_purch r, r_ret = q_ret r,
      r_qty = s_qty r, r_sales = sales_final r, r_tax = tax_final r, r_ending = final_ending r\<rparr>"

text \<open>
  \<^verbatim>\<open>processData\<close> from the four parsed ledgers to \<^verbatim>\<open>reportData\<close>; \<open>Inl\<close> is the exception
  that the \<^verbatim>\<open>catch\<close> block turns into the failure message. The check that four files were
  chosen, their parsing and the writing of the workbook lie outside.
\<close>

definition processData ::
  "number \<Rightarrow> number \<Rightarrow> ParsedCSV \<Rightarrow> ParsedCSV \<Rightarrow> ParsedCSV \<Rightarrow> ParsedCSV \<Rightarrow> error + report_row list" where
  "processData targetSales targetTax dfOpen dfPurch dfRet dfSales =
     (case sales_targeting targetSales (redistribute (mergeData dfOpen dfPurch dfRet dfSales)) of
        Inl e \<Rightarrow> Inl e
      | Inr fd1 \<Rightarrow>
          (case tax_targeting targetTax fd1 of
             Inl e \<Rightarrow> Inl e
           | Inr fd2 \<Rightarrow> Inr (map report_of (map set_final_ending fd2))))"

section \<open>Binary64 arithmetic\<close>

text \<open>
  The numbers of the source are IEEE 754 binary64 values, and every \<^verbatim>\<open>+\<close>, \<^verbatim>\<open>-\<close>, \<^verbatim>\<open>*\<close>
  and \<^verbatim>\<open>/\<close> rounds its exact result to the nearest such value, ties to the even
  significand. Two properties of \<^verbatim>\<open>processData\<close> are statements about this rounding: that
  the balanced amounts add up to the targets, and that redistribution gives the recipients
  what it takes from the donors. For them the passes of lines 185-264 are embedded a second
  time below, over binary64 values; the definitions above, over exact rationals, serve the
  properties that do not depend on rounding.

  \<open>fl x\<close> is the binary64 value nearest to the rational \<open>x\<close> when the exponent range is
  unbounded above: \<open>ilog2 x\<close> is the exponent \<open>e\<close> with \<open>pow2 e \<le> \<bar>x\<bar> < pow2 (e + 1)\<close>, the
  spacing of the binary64 values around \<open>x\<close> is \<open>pow2 (e - 52)\<close> (53 significant bits) and
  never less than \<open>pow2 (- 1074)\<close> (the subnormal numbers), and \<open>x\<close> is rounded to the nearest
  multiple of that spacing, to the even multiple when two are equally near.
\<close>

fun bit_length :: "nat \<Rightarrow> nat" where
  "bit_length n = (if n = 0 then 0 else Suc (bit_length (n div 2)))"

declare bit_length.simps [simp del]

definition pow2 :: "int \<Rightarrow> rat" where
  "pow2 e = (if 0 \<le> e then 2 ^ nat e else 1 / 2 ^ nat (- e))"

definition ilog2 :: "rat \<Rightarrow> int" where
  "ilog2 x = (if 1 \<le> \<bar>x\<bar> then int (bit_length (nat \<lfloor>\<bar>x\<bar>\<rfloor>)) - 1
              else - int (bit_length (nat (\<lceil>1 / \<bar>x\<bar>\<rceil> - 1))))"

definition round_even :: "rat \<Rightarrow> int" where
  "round_even x =
     (let f = \<lfloor>x\<rfloor>; d = x - of_int f
      in if d < 1 / 2 then f else if 1 / 2 < d then f + 1 else if even f then f else f + 1)"

definition fl :: "rat \<Rightarrow> rat" where
  "fl x = (if x = 0 then 0
           else let q = max (ilog2 x - 52) (- 1074)
                in of_int (round_even (x / pow2 q)) * pow2 q)"

text \<open>
  A binary64 value: a finite one, given by its rational value, one of the two infinities,
  or \<^verbatim>\<open>NaN\<close>. The sign of a zero is not kept: it shows only in a division by zero, and
  the passes divide by \<^verbatim>\<open>totalSales\<close> and \<^verbatim>\<open>totalTax\<close> under the guard \<^verbatim>\<open>> 0\<close>, by
  \<^verbatim>\<open>item[COL_S_QTY] || 1\<close>, and by \<^verbatim>\<open>totalPosSales\<close>, a sum of values that are \<^verbatim>\<open>> 0\<close>.
  \<open>rnd\<close> is the result of an operation whose exact value is \<open>x\<close>: the rounded value, or an
  infinity when that reaches \<open>2 ^ 1024\<close>.
\<close>

datatype double = Fin rat | PInf | NInf | NaN

definition rnd :: "rat \<Rightarrow> double" where
  "rnd x = (let y = fl x in if 2 ^ 1024 \<le> y then PInf else if y \<le> - (2 ^ 1024) then NInf else Fin y)"

fun neg64 :: "double \<Rightarrow> double" where
  "neg64 (Fin x) = Fin (- x)"
| "neg64 PInf = NInf"
| "neg64 NInf = PInf"
| "neg64 NaN = NaN"

text \<open>\<^verbatim>\<open>a + b\<close> and \<^verbatim>\<open>a - b\<close>.\<close>

fun add64 :: "double \<Rightarrow> double \<Rightarrow> double" where
  "add64 (Fin x) (Fin y) = rnd (x + y)"
| "add64 NaN b = NaN"
| "add64 a NaN = NaN"
| "add64 PInf NInf = NaN"
| "add64 NInf PInf = NaN"
| "add64 PInf b = PInf"
| "add64 a PInf = PInf"
| "add64 NInf b = NInf"
| "add64 a NInf = NInf"

definition sub64 :: "double \<Rightarrow> double \<Rightarrow> double" where
  "sub64 a b = add64 a (neg64 b)"

text \<open>\<^verbatim>\<open>a * b\<close>: an infinity times zero is \<^verbatim>\<open>NaN\<close>.\<close>

fun mul64 :: "double \<Rightarrow> double \<Rightarrow> double" where
  "mul64 (Fin x) (Fin y) = rnd (x * y)"
| "mul64 NaN b = NaN"
| "mul64 a NaN = NaN"
| "mul64 (Fin x) b = (if x = 0 then NaN else if x < 0 then neg64 b else b)"
| "mul64 a (Fin y) = (if y = 0 then NaN else if y < 0 then neg64 a else a)"
| "mul64 a b = (if a = b then PInf else NInf)"

text \<open>\<^verbatim>\<open>a / b\<close>; a zero divisor is taken as the positive zero.\<close>

fun div64 :: "double \<Rightarrow> double \<Rightarrow> double" where
  "div64 (Fin x) (Fin y) =
     (if y \<noteq> 0 then rnd (x / y) else if x = 0 then NaN else if 0 < x then PInf else NInf)"
| "div64 NaN b = NaN"
| "div64 a NaN = NaN"
| "div64 (Fin x) b = Fin 0"
| "div64 a (Fin y) = (if y < 0 then neg64 a else a)"
| "div64 a b = NaN"

text \<open>\<^verbatim>\<open>Math.floor\<close> and \<^verbatim>\<open>Math.abs\<close>; the floor of a binary64 value is a binary64 value.\<close>

fun floor64 :: "double \<Rightarrow> double" where
  "floor64 (Fin x) = Fin (of_int \<lfloor>x\<rfloor>)"
| "floor64 d = d"


text \<open>\<^verbatim>\<open>a < b\<close>, \<^verbatim>\<open>a > b\<close> and \<^verbatim>\<open>a === b\<close>: every comparison with \<^verbatim>\<open>NaN\<close> is false.\<close>

fun lt64 :: "double \<Rightarrow> double \<Rightarrow> bool" where
  "lt64 (Fin x) (Fin y) = (x < y)"
| "lt64 NaN b = False"
| "lt64 a NaN = False"
| "lt64 NInf b = (b \<noteq> NInf)"
| "lt64 a PInf = (a \<noteq> PInf)"
| "lt64 a b = False"

definition gt64 :: "double \<Rightarrow> double \<Rightarrow> bool" where
  "gt64 a b = lt64 b a"

definition seq64 :: "double \<Rightarrow> double \<Rightarrow> bool" where
  "seq64 a b \<longleftrightarrow> a \<noteq> NaN \<and> a = b"

text \<open>\<^verbatim>\<open>Math.min(a, b)\<close> is \<^verbatim>\<open>NaN\<close> when an argument is; in \<^verbatim>\<open>x || 1\<close> zero and \<^verbatim>\<open>NaN\<close> are falsy.\<close>

definition min64 :: "double \<Rightarrow> double \<Rightarrow> double" where
  "min64 a b = (if a = NaN \<or> b = NaN then NaN else if lt64 b a then b else a)"


section \<open>Redistribution and targeting in binary64\<close>

text \<open>
  The record of \<^verbatim>\<open>finalData\<close> and lines 185-264 once more, with every operation of the
  source replaced by its binary64 counterpart and nothing else changed.
\<close>

record item64 =
  code64 :: jsstring
  q_open64 :: double
  q_purch64 :: double
  q_ret64 :: double
  available64 :: double
  s_qty64 :: double
  s_total64 :: double
  s_tax_amt64 :: double
  s_tax_pct64 :: double
  ending64 :: double
  sales_final64 :: double
  tax_final64 :: double
  final_ending64 :: double

definition reduce_sum64 :: "('a \<Rightarrow> double) \<Rightarrow> 'a list \<Rightarrow> double" where
  "reduce_sum64 f arr = foldl (\<lambda>sum r. add64 sum (f r)) (Fin 0) arr"













definition reduce_maxIdx64 :: "(item64 \<Rightarrow> double) \<Rightarrow> item64 list \<Rightarrow> nat" where
  "reduce_maxIdx64 f arr =
     foldl (\<lambda>maxIdx ri. if gt64 (f (fst ri)) (f (arr ! maxIdx)) then snd ri else maxIdx) 0
       (zip arr [0..<length arr])"

definition modify_at64 :: "item64 list \<Rightarrow> nat \<Rightarrow> (item64 \<Rightarrow> item64) \<Rightarrow> error + item64 list" where
  "modify_at64 arr i f = (if i < length arr then Inr (arr[i := f (arr ! i)]) else Inl TypeError)"

definition sales_scaled64 :: "double \<Rightarrow> item64 list \<Rightarrow> item64 list" where
  "sales_scaled64 targetSales finalData =
     (let totalSales = reduce_sum64 s_total64 finalData;
          salesRatio = (if gt64 totalSales (Fin 0) then div64 targetSales totalSales else Fin 1)
      in map (\<lambda>r. r\<lparr>sales_final64 := floor64 (mul64 (s_total64 r) salesRatio)\<rparr>) finalData)"

definition sales_targeting64 :: "double \<Rightarrow> item64 list \<Rightarrow> error + item64 list" where
  "sales_targeting64 targetSales finalData =
     (let scaled = sales_scaled64 targetSales finalData;
          currentTotalSales = reduce_sum64 sales_final64 scaled;
          salesDiff = sub64 targetSales currentTotalSales
      in if \<not> seq64 salesDiff (Fin 0) then
           modify_at64 scaled (reduce_maxIdx64 sales_final64 scaled)
             (\<lambda>r. r\<lparr>sales_final64 := add64 (sales_final64 r) salesDiff\<rparr>)
         else Inr scaled)"

definition taxableItems64 :: "item64 list \<Rightarrow> item64 list" where
  "taxableItems64 finalData = filter (\<lambda>r. gt64 (s_tax_pct64 r) (Fin 0)) finalData"

definition tax_scaled64 :: "double \<Rightarrow> item64 list \<Rightarrow> item64 list" where
  "tax_scaled64 targetTax finalData =
     (let totalTax = reduce_sum64 s_tax_amt64 (taxableItems64 finalData);
          taxRatio = (if gt64 totalTax (Fin 0) then div64 targetTax totalTax else Fin 1)
      in map (\<lambda>r. if gt64 (s_tax_pct64 r) (Fin 0)
                   then r\<lparr>tax_final64 := floor64 (mul64 (s_tax_amt64 r) taxRatio)\<rparr>
                   else r\<lparr>tax_final64 := Fin 0\<rparr>) finalData)"

definition tax_targeting64 :: "double \<Rightarrow> item64 list \<Rightarrow> error + item64 list" where
  "tax_targeting64 targetTax finalData =
     (let scaled = tax_scaled64 targetTax finalData;
          currentTotalTax = reduce_sum64 tax_final64 scaled;
          taxDiff = sub64 targetTax currentTotalTax
      in if \<not> seq64 taxDiff (Fin 0) \<and> length (taxableItems64 finalData) > 0 then
           modify_at64 scaled (reduce_maxIdx64 tax_final64 scaled)
             (\<lambda>r. r\<lparr>tax_final64 := add64 (tax_final64 r) taxDiff\<rparr>)
         else Inr scaled)"

text \<open>Lines 230-264: the sales pass, then the tax pass on the records it leaves.\<close>

definition targeting64 :: "double \<Rightarrow> double \<Rightarrow> item64 list \<Rightarrow> error + item64 list" where
  "targeting64 targetSales targetTax finalData =
     (case sales_targeting64 targetSales finalData of
        Inl e \<Rightarrow> Inl e
      | Inr fd1 \<Rightarrow> tax_targeting64 targetTax fd1)"

section \<open>Example ledgers\<close>

text \<open>
  Scenario A of the specification: P1 opens with 10, 5 are purchased, 20 are sold for 1000
  with 90 of tax at 9 percent; P2 opens with 8 and has sales of 500 in the same tax group.
\<close>

definition inventory_row :: "string \<Rightarrow> string \<Rightarrow> row" where
  "inventory_row c q = [COL_S_CODE \<mapsto> str c, COL_S_QTY \<mapsto> str q]"

definition sales_row :: "string \<Rightarrow> string \<Rightarrow> string \<Rightarrow> string \<Rightarrow> string \<Rightarrow> row" where
  "sales_row c q p t x =
     [COL_S_CODE \<mapsto> str c, COL_S_QTY \<mapsto> str q, COL_S_TAX_PCT \<mapsto> str p,
      COL_S_TOTAL \<mapsto> str t, COL_S_TAX_AMT \<mapsto> str x]"

definition exOpen :: ParsedCSV where
  "exOpen = \<lparr>data = [inventory_row ''P1'' ''10'', inventory_row ''P2'' ''8''],
             headers = [COL_S_CODE, COL_S_QTY]\<rparr>"

definition exPurch :: ParsedCSV where
  "exPurch = \<lparr>data = [inventory_row ''P1'' ''5''], headers = [COL_S_CODE, COL_S_QTY]\<rparr>"

definition exRet :: ParsedCSV where
  "exRet = \<lparr>data = [], headers = [COL_S_CODE, COL_S_QTY]\<rparr>"

definition exSales :: ParsedCSV where
  "exSales = \<lparr>data = [sales_row ''P1'' ''20'' ''9'' ''1000'' ''90'',
                       sales_row ''P2'' ''0'' ''9'' ''500'' ''45''],
              headers = [COL_S_CODE, COL_S_QTY, COL_S_TAX_PCT, COL_S_TOTAL, COL_S_TAX_AMT]\<rparr>"

definition exMerged :: "item list" where
  "exMerged =
     [\<lparr>code = str ''P1'', q_open = 10, q_purch = 5, q_ret = 0, available = 15,
       s_qty = 20, s_total = 1000, s_tax_amt = 90, s_tax_pct = 9,
       ending = - 5, sales_final = 0, tax_final = 0, final_ending = 0\<rparr>,
      \<lparr>code = str ''P2'', q_open = 8, q_purch = 0, q_ret = 0, available = 8,
       s_qty = 0, s_total = 500, s_tax_amt = 45, s_tax_pct = 9,
       ending = 8, sales_final = 0, tax_final = 0, final_ending = 0\<rparr>]"

definition exRedistributed :: "item list" where
  "exRedistributed =
     [\<lparr>code = str ''P1'', q_open = 10, q_purch = 5, q_ret = 0, available = 15,
       s_qty = 15, s_total = 750, s_tax_amt = 135 / 2, s_tax_pct = 9,
       ending = - 5, sales_final = 0, tax_final = 0, final_ending = 0\<rparr>,
      \<lparr>code = str ''P2'', q_open = 8, q_purch = 0, q_ret = 0, available = 8,
       s_qty = 5, s_total = 750, s_tax_amt = 135 / 2, s_tax_pct = 9,
       ending = 8, sales_final = 0, tax_final = 0, final_ending = 0\<rparr>]"

text \<open>
  The report of the run on Scenario A with a sales target of 900 and a tax target of 100.
\<close>

definition exReport :: "report_row list" where
  "exReport =
     [\<lparr>r_code = str ''P1'', r_open = 10, r_purch = 5, r_ret = 0, r_qty = 15,
       r_sales = 450, r_tax = 50, r_ending = 0\<rparr>,
      \<lparr>r_code = str ''P2'', r_open = 8, r_purch = 0, r_ret = 0, r_qty = 5,
       r_sales = 450, r_tax = 50, r_ending = 3\<rparr>]"

text \<open>
  Records after merging. \<open>exFraction\<close>: a donor that sold half a unit it did not have, beside
  a recipient. \<open>exZeroQty\<close>: a donor with no sold quantity, sales of 100 and two more units
  returned than were available, beside a recipient; \<open>exStart\<close> is the state in which the donor
  loop starts on it. \<open>exIdle\<close>: a donor alone in the group of rate 9, and a donor and a
  recipient in the group of rate 0.
\<close>

definition exFraction :: "item list" where
  "exFraction =
     [\<lparr>code = str ''D'', q_open = 0, q_purch = 0, q_ret = 0, available = 0,
       s_qty = 1 / 2, s_total = 10, s_tax_amt = 1, s_tax_pct = 9,
       ending = - (1 / 2), sales_final = 0, tax_final = 0, final_ending = 0\<rparr>,
      \<lparr>code = str ''R'', q_open = 3, q_purch = 0, q_ret = 0, available = 3,
       s_qty = 1, s_total = 20, s_tax_amt = 2, s_tax_pct = 9,
       ending = 2, sales_final = 0, tax_final = 0, final_ending = 0\<rparr>]"

definition exZeroQty :: "item list" where
  "exZeroQty =
     [\<lparr>code = str ''D'', q_open = 0, q_purch = 0, q_ret = 2, available = - 2,
       s_qty = 0, s_total = 100, s_tax_amt = 9, s_tax_pct = 9,
       ending = - 2, sales_final = 0, tax_final = 0, final_ending = 0\<rparr>,
      \<lparr>code = str ''R'', q_open = 3, q_purch = 0, q_ret = 0, available = 3,
       s_qty = 1, s_total = 20, s_tax_amt = 2, s_tax_pct = 9,
       ending = 2, sales_final = 0, tax_final = 0, final_ending = 0\<rparr>]"

definition exStart :: moves where
  "exStart = \<lparr>mv_data = exZeroQty, totalMoveQty = 0, totalMoveSales = 0, totalMoveTax = 0\<rparr>"

definition exIdle :: "item list" where
  "exIdle =
     [\<lparr>code = str ''P1'', q_open = 10, q_purch = 5, q_ret = 0, available = 15,
       s_qty = 20, s_total = 1000, s_tax_amt = 90, s_tax_pct = 9,
       ending = - 5, sales_final = 0, tax_final = 0, final_ending = 0\<rparr>,
      \<lparr>code = str ''P3'', q_open = 2, q_purch = 0, q_ret = 0, available = 2,
       s_qty = 4, s_total = 40, s_tax_amt = 0, s_tax_pct = 0,
       ending = - 2, sales_final = 0, tax_final = 0, final_ending = 0\<rparr>,
      \<lparr>code = str ''P4'', q_open = 5, q_purch = 0, q_ret = 0, available = 5,
       s_qty = 2, s_total = 10, s_tax_amt = 0, s_tax_pct = 0,
       ending = 3, sales_final = 0, tax_final = 0, final_ending = 0\<rparr>]"

text \<open>
  Rows: one without a product code; one whose quantity and sales amount are not numbers and
  whose tax amount is absent.
\<close>

definition exNoCode :: row where
  "exNoCode = [COL_S_QTY \<mapsto> str ''7'']"

definition exNotNumeric :: row where
  "exNotNumeric =
     [COL_S_CODE \<mapsto> str ''P1'', COL_S_QTY \<mapsto> str ''n/a'', COL_S_TAX_PCT \<mapsto> str ''9'',
      COL_S_TOTAL \<mapsto> str ''--'']"

text \<open>
  Ledgers: one whose rows have no product code; an inventory ledger with the single column of
  product codes; a sales ledger without the column of tax amounts; a sales ledger with product
  A at rate 0 and product B at rate 9, both with a tax amount of 0.
\<close>

definition exNoCodes :: ParsedCSV where
  "exNoCodes = \<lparr>data = [[COL_S_QTY \<mapsto> str ''3'']], headers = [COL_S_QTY]\<rparr>"

definition exOneColumn :: ParsedCSV where
  "exOneColumn = \<lparr>data = [[COL_S_CODE \<mapsto> str ''P1'']], headers = [COL_S_CODE]\<rparr>"

definition exSalesNoTax :: ParsedCSV where
  "exSalesNoTax =
     \<lparr>data = [[COL_S_CODE \<mapsto> str ''P1'', COL_S_QTY \<mapsto> str ''2'', COL_S_TAX_PCT \<mapsto> str ''9'',
               COL_S_TOTAL \<mapsto> str ''100'']],
      headers = [COL_S_CODE, COL_S_QTY, COL_S_TAX_PCT, COL_S_TOTAL]\<rparr>"

definition exRateSales :: ParsedCSV where
  "exRateSales =
     \<lparr>data = [sales_row ''A'' ''1'' ''0'' ''100'' ''0'', sales_row ''B'' ''1'' ''9'' ''100'' ''0''],
      headers = [COL_S_CODE, COL_S_QTY, COL_S_TAX_PCT, COL_S_TOTAL, COL_S_TAX_AMT]\<rparr>"

text \<open>
  Records of \<^verbatim>\<open>finalData\<close> in binary64, as the merge of lines 164-182 builds them from the
  available quantity and the sold quantity, sales amount, tax amount and tax rate of a code.
  \<open>exSmall\<close> has sales of 750 and 750 (targets 900 and 100). \<open>exLargeTarget\<close> has sales of
  1 and 4 and meets a target above \<open>2 ^ 53\<close>; \<open>exCredit\<close> has sales of -1 and 3 and meets
  the target 2.1; \<open>exLargeResult\<close> and \<open>exCreditResult\<close> are what the two passes make of them.
  In \<open>exShares\<close> the donor P1 gives up half of its sales to the recipients P2 and P3, whose
  sales amounts are 1 and 4; in \<open>exOneRecipient\<close> the donors P1 and P2 give to P3 alone.
\<close>

definition sold64 :: "string \<Rightarrow> rat \<Rightarrow> rat \<Rightarrow> rat \<Rightarrow> rat \<Rightarrow> rat \<Rightarrow> item64" where
  "sold64 c avail qty amount tax pct =
     \<lparr>code64 = str c, q_open64 = Fin avail, q_purch64 = Fin 0, q_ret64 = Fin 0,
      available64 = Fin avail, s_qty64 = Fin qty, s_total64 = Fin amount, s_tax_amt64 = Fin tax,
      s_tax_pct64 = Fin pct, ending64 = sub64 (Fin avail) (Fin qty),
      sales_final64 = Fin 0, tax_final64 = Fin 0, final_ending64 = Fin 0\<rparr>"

definition exSmall :: "item64 list" where
  "exSmall = [sold64 ''P1'' 10 15 750 90 9, sold64 ''P2'' 20 5 750 0 0]"

definition exLargeTarget :: "item64 list" where
  "exLargeTarget = [sold64 ''P1'' 10 1 1 2 9, sold64 ''P2'' 10 1 4 3 9]"

definition exLargeResult :: "item64 list" where
  "exLargeResult =
     [(sold64 ''P1'' 10 1 1 2 9)\<lparr>sales_final64 := Fin 1801439850948198, tax_final64 := Fin 4\<rparr>,
      (sold64 ''P2'' 10 1 4 3 9)\<lparr>sales_final64 := Fin 7205759403792797, tax_final64 := Fin 6\<rparr>]"

definition exCredit :: "item64 list" where
  "exCredit = [sold64 ''P1'' 10 1 (- 1) 2 9, sold64 ''P2'' 10 1 3 3 9]"

definition exCreditResult :: "item64 list" where
  "exCreditResult =
     [(sold64 ''P1'' 10 1 (- 1) 2 9)\<lparr>sales_final64 := Fin (- 2), tax_final64 := Fin 4\<rparr>,
      (sold64 ''P2'' 10 1 3 3 9)\<lparr>sales_final64 := Fin (4616189618054758 / 2 ^ 50), tax_final64 := Fin 6\<rparr>]"



section \<open>Notions used in the proofs\<close>

text \<open>
  The change one pass of each loop makes to the live record; the sold quantity, sales amount
  and tax that the merge reads for a product code (0 when the code has no sales); and the totals of one tax
  group: the quantity, amount and tax taken from its donors and the amount over which the
  weights of its recipients are formed.
\<close>

definition donor_update :: "item \<Rightarrow> item \<Rightarrow> item" where
  "donor_update it r = r\<lparr>s_qty := s_qty r - moveQty it, s_total := s_total r - moveSales it,
                         s_tax_amt := s_tax_amt r - moveTax it\<rparr>"

definition recipient_update :: "number \<Rightarrow> number \<Rightarrow> number \<Rightarrow> number \<Rightarrow> item \<Rightarrow> item \<Rightarrow> item" where
  "recipient_update totalPosSales tq ts tt it r =
     r\<lparr>s_qty := s_qty r + s_total it / totalPosSales * tq,
       s_total := s_total r + s_total it / totalPosSales * ts,
       s_tax_amt := s_tax_amt r + s_total it / totalPosSales * tt\<rparr>"

definition sold_qty :: "(jsstring \<times> agg) list \<Rightarrow> jsstring \<Rightarrow> number" where
  "sold_qty salesAgg c = (case map_of salesAgg c of None \<Rightarrow> 0 | Some a \<Rightarrow> agg_qty a)"

definition sold_total :: "(jsstring \<times> agg) list \<Rightarrow> jsstring \<Rightarrow> number" where
  "sold_total salesAgg c = (case map_of salesAgg c of None \<Rightarrow> 0 | Some a \<Rightarrow> agg_total a)"

definition sold_tax :: "(jsstring \<times> agg) list \<Rightarrow> jsstring \<Rightarrow> number" where
  "sold_tax salesAgg c = (case map_of salesAgg c of None \<Rightarrow> 0 | Some a \<Rightarrow> agg_tax a)"

definition grpTotalPosSales :: "item list \<Rightarrow> number \<Rightarrow> number" where
  "grpTotalPosSales xs g = sum_list (map (\<lambda>ri. s_total (fst ri)) (posItems xs g))"

definition grpMoveQty :: "item list \<Rightarrow> number \<Rightarrow> number" where
  "grpMoveQty xs g = sum_list (map (\<lambda>ri. moveQty (fst ri)) (negItems xs g))"

definition grpMoveSales :: "item list \<Rightarrow> number \<Rightarrow> number" where
  "grpMoveSales xs g = sum_list (map (\<lambda>ri. moveSales (fst ri)) (negItems xs g))"

definition grpMoveTax :: "item list \<Rightarrow> number \<Rightarrow> number" where
  "grpMoveTax xs g = sum_list (map (\<lambda>ri. moveTax (fst ri)) (negItems xs g))"

text \<open>
  For the binary64 passes: the sum of a list of finite values as a rational, taken without
  rounding (\<open>None\<close> when a value is not finite), and the same of their absolute values; the
  change each loop of the redistribution makes to the live record; the totals of one tax
  group as the first loop accumulates them and the amount over which the weights are formed;
  and the list of the amounts \<^verbatim>\<open>weight * total\<close> that the second loop adds to the recipients
  of a group, for one of the three totals.
\<close>

fun fin_sum :: "double list \<Rightarrow> rat option" where
  "fin_sum [] = Some 0"
| "fin_sum (Fin x # ds) = map_option (\<lambda>s. x + s) (fin_sum ds)"
| "fin_sum (d # ds) = None"

fun abs_sum :: "double list \<Rightarrow> rat option" where
  "abs_sum [] = Some 0"
| "abs_sum (Fin x # ds) = map_option (\<lambda>s. \<bar>x\<bar> + s) (abs_sum ds)"
| "abs_sum (d # ds) = None"








section \<open>Evaluation of the examples\<close>

lemmas pf_defs = parseFloat_def ToString_def str_def isWhiteSpace_def isDigit_def digitsValue_def
  exponentPart_def Let_def

lemmas col_defs = COL_S_CODE_def COL_S_QTY_def COL_S_TAX_PCT_def COL_S_TOTAL_def COL_S_TAX_AMT_def

lemmas ex_defs = exOpen_def exPurch_def exRet_def exSales_def inventory_row_def sales_row_def

lemmas redistribute_defs = redistribute_def taxGroups_def new_Set_def Set_add_def
  redistribute_group_def negItems_def posItems_def grpIndices_def neg_step_def pos_step_def
  subtract_at_def moveQty_def moveSales_def moveTax_def deficitRatio_def reduce_sum_def Let_def

lemma parseFloat_undefined: "parseFloat None = None"
  by (simp add: pf_defs)

lemma ex_getQtyCol:
  "getQtyCol exOpen = Some COL_S_QTY" "getQtyCol exPurch = Some COL_S_QTY"
  "getQtyCol exRet = Some COL_S_QTY"
  by (simp_all add: getQtyCol_def ex_defs possible_def col_defs trim_def isWhiteSpace_def)

lemma ex_groupBySum:
  "groupBySum (data exOpen) COL_S_CODE (Some COL_S_QTY) = [(str ''P1'', 10), (str ''P2'', 8)]"
  "groupBySum (data exPurch) COL_S_CODE (Some COL_S_QTY) = [(str ''P1'', 5)]"
  "groupBySum (data exRet) COL_S_CODE (Some COL_S_QTY) = []"
  by (simp_all add: groupBySum_def groupBySum_step_def ex_defs col_defs pf_defs or_empty_def
      or0_def get_or0_def)

lemma ex_aggregate_sales:
  "aggregate_sales (data exSales) =
     ([(str ''P1'', \<lparr>agg_qty = 20, agg_total = 1000, agg_tax = 90, agg_tax_pct = 9\<rparr>),
       (str ''P2'', \<lparr>agg_qty = 0, agg_total = 500, agg_tax = 45, agg_tax_pct = 9\<rparr>)],
      [(str ''P1'', 9), (str ''P2'', 9)])"
  by (simp add: aggregate_sales_def sales_step_def ex_defs col_defs pf_defs or_empty_def or0_def)

lemma ex_sales_codes: "sales_codes (data exSales) = [str ''P1'', str ''P2'']"
  by (simp add: sales_codes_def ex_defs col_defs str_def)

lemma ex_mergeData: "mergeData exOpen exPurch exRet exSales = exMerged"
  by (simp add: mergeData_def ex_getQtyCol ex_groupBySum ex_aggregate_sales ex_sales_codes
      allCodes_of_def new_Set_def Set_add_def build_inventory_def inventory_entry_def
      merge_row_def get_or0_def str_def Let_def exMerged_def)

lemma ex_redistribute: "redistribute exMerged = exRedistributed"
  by (simp add: exMerged_def exRedistributed_def redistribute_defs upt_rec[of 0] upt_rec[of 1]
      upt_rec[of 2])

section \<open>Sums, updates and the index of the largest value\<close>

lemma foldl_add_sum: "foldl (\<lambda>sum r. sum + f r) a xs = a + sum_list (map f xs)"
  by (induction xs arbitrary: a) (simp_all add: add.assoc)

lemma reduce_sum_eq: "reduce_sum f xs = sum_list (map f xs)"
  by (simp add: reduce_sum_def foldl_add_sum)

lemma maxIdx_fold_bound:
  "m < n \<Longrightarrow> \<forall>ri \<in> set ris. snd ri < n \<Longrightarrow>
   foldl (\<lambda>maxIdx ri. if f (fst ri) > f (arr ! maxIdx) then snd ri else maxIdx) m ris < n"
  by (induction ris arbitrary: m) auto

lemma reduce_maxIdx_less: "arr \<noteq> [] \<Longrightarrow> reduce_maxIdx f arr < length arr"
  unfolding reduce_maxIdx_def
  by (rule maxIdx_fold_bound) (auto simp: set_zip)

lemma sum_list_map_update:
  "i < length arr \<Longrightarrow> sum_list (map g (arr[i := v])) = sum_list (map g arr) - g (arr ! i) + g v"
  for g :: "'a \<Rightarrow> rat"
  by (induction arr arbitrary: i) (auto split: nat.splits)

lemma map_update_same: "f v = f (arr ! i) \<Longrightarrow> map f (arr[i := v]) = map f arr"
  by (induction arr arbitrary: i) (auto split: nat.splits)

section \<open>Targeting hits the targets\<close>

lemma sales_scaled_length: "length (sales_scaled t xs) = length xs"
  by (simp add: sales_scaled_def Let_def)

lemma sales_targeting_sum:
  assumes "finalData \<noteq> []"
  shows "\<exists>fd1. sales_targeting targetSales finalData = Inr fd1
     \<and> sum_list (map sales_final fd1) = targetSales
     \<and> map s_tax_pct fd1 = map s_tax_pct finalData
     \<and> map s_tax_amt fd1 = map s_tax_amt finalData
     \<and> length fd1 = length finalData"
proof -
  let ?sc = "sales_scaled targetSales finalData"
  let ?i = "reduce_maxIdx sales_final ?sc"
  have ne: "?sc \<noteq> []" using assms by (simp add: sales_scaled_def Let_def)
  then have i: "?i < length ?sc" by (rule reduce_maxIdx_less)
  have pct: "map s_tax_pct ?sc = map s_tax_pct finalData" "map s_tax_amt ?sc = map s_tax_amt finalData"
    by (simp_all add: sales_scaled_def Let_def)
  show ?thesis
  proof (cases "targetSales - reduce_sum sales_final ?sc = 0")
    case True
    then show ?thesis
      using pct by (simp add: sales_targeting_def Let_def reduce_sum_eq sales_scaled_length)
  next
    case False
    let ?r = "?sc ! ?i"
    let ?d = "targetSales - reduce_sum sales_final ?sc"
    let ?fd1 = "?sc[?i := ?r\<lparr>sales_final := sales_final ?r + ?d\<rparr>]"
    have res: "sales_targeting targetSales finalData = Inr ?fd1"
      using False i by (simp add: sales_targeting_def Let_def modify_at_def)
    have s: "sum_list (map sales_final ?fd1) = targetSales"
      using i by (simp add: sum_list_map_update reduce_sum_eq)
    have p1: "map s_tax_pct ?fd1 = map s_tax_pct finalData"
      using pct(1) by (simp add: map_update_same)
    have p2: "map s_tax_amt ?fd1 = map s_tax_amt finalData"
      using pct(2) by (simp add: map_update_same)
    show ?thesis using res s p1 p2 by (simp add: sales_scaled_length)
  qed
qed

lemma tax_scaled_length: "length (tax_scaled t xs) = length xs"
  by (simp add: tax_scaled_def Let_def)

lemma tax_scaled_sales_final: "map sales_final (tax_scaled t xs) = map sales_final xs"
  by (simp add: tax_scaled_def Let_def)

lemma tax_targeting_sum:
  assumes "taxableItems finalData \<noteq> []"
  shows "\<exists>fd2. tax_targeting targetTax finalData = Inr fd2
     \<and> sum_list (map tax_final fd2) = targetTax
     \<and> map sales_final fd2 = map sales_final finalData"
proof -
  let ?sc = "tax_scaled targetTax finalData"
  let ?i = "reduce_maxIdx tax_final ?sc"
  have "finalData \<noteq> []" using assms by (auto simp: taxableItems_def)
  then have ne: "?sc \<noteq> []" by (simp add: tax_scaled_def Let_def)
  then have i: "?i < length ?sc" by (rule reduce_maxIdx_less)
  show ?thesis
  proof (cases "targetTax - reduce_sum tax_final ?sc = 0")
    case True
    then show ?thesis
      by (simp add: tax_targeting_def Let_def reduce_sum_eq tax_scaled_sales_final)
  next
    case False
    let ?r = "?sc ! ?i"
    let ?d = "targetTax - reduce_sum tax_final ?sc"
    let ?fd2 = "?sc[?i := ?r\<lparr>tax_final := tax_final ?r + ?d\<rparr>]"
    have res: "tax_targeting targetTax finalData = Inr ?fd2"
      using False i assms by (simp add: tax_targeting_def Let_def modify_at_def)
    have s: "sum_list (map tax_final ?fd2) = targetTax"
      using i by (simp add: sum_list_map_update reduce_sum_eq)
    have p1: "map sales_final ?fd2 = map sales_final finalData"
      by (simp add: map_update_same tax_scaled_sales_final)
    show ?thesis using res s p1 by simp
  qed
qed

lemma taxableItems_cong:
  assumes "map s_tax_pct a = map s_tax_pct b"
  shows "(taxableItems a = []) = (taxableItems b = [])"
proof -
  have "(taxableItems a = []) = (\<forall>x \<in> set (map s_tax_pct a). \<not> x > 0)"
    by (auto simp: taxableItems_def filter_empty_conv)
  also have "\<dots> = (\<forall>x \<in> set (map s_tax_pct b). \<not> x > 0)" using assms by simp
  also have "\<dots> = (taxableItems b = [])"
    by (auto simp: taxableItems_def filter_empty_conv)
  finally show ?thesis .
qed

lemma report_sales: "map r_sales (map report_of (map set_final_ending xs)) = map sales_final xs"
  by (simp add: report_of_def set_final_ending_def comp_def)

lemma report_tax: "map r_tax (map report_of (map set_final_ending xs)) = map tax_final xs"
  by (simp add: report_of_def set_final_ending_def comp_def)

text \<open>
  In exact arithmetic the correction closes the gap: when the records after redistribution
  have a positive total sales amount and at least one of them has a positive tax rate, the
  run produces a report whose balanced sales amounts sum to \<open>targetSales\<close> and whose
  balanced tax amounts sum to \<open>targetTax\<close>, both sums taken over all rows. The passes in
  binary64 are treated further below.
\<close>

lemma rational_target_hit:
  assumes "reduce_sum s_total (redistribute (mergeData dfOpen dfPurch dfRet dfSales)) > 0"
    and "\<exists>x \<in> set (redistribute (mergeData dfOpen dfPurch dfRet dfSales)). s_tax_pct x > 0"
  shows "\<exists>report. processData targetSales targetTax dfOpen dfPurch dfRet dfSales = Inr report
      \<and> reduce_sum r_sales report = targetSales
      \<and> reduce_sum r_tax report = targetTax"
proof -
  let ?fd = "redistribute (mergeData dfOpen dfPurch dfRet dfSales)"
  have ne: "?fd \<noteq> []" using assms(2) by auto
  from sales_targeting_sum[OF ne, of targetSales] obtain fd1 where
    1: "sales_targeting targetSales ?fd = Inr fd1" "sum_list (map sales_final fd1) = targetSales"
       "map s_tax_pct fd1 = map s_tax_pct ?fd"
    by blast
  have "taxableItems ?fd \<noteq> []" using assms(2) by (auto simp: taxableItems_def filter_empty_conv)
  then have "taxableItems fd1 \<noteq> []" using taxableItems_cong[OF 1(3)] by simp
  from tax_targeting_sum[OF this, of targetTax] obtain fd2 where
    2: "tax_targeting targetTax fd1 = Inr fd2" "sum_list (map tax_final fd2) = targetTax"
       "map sales_final fd2 = map sales_final fd1"
    by blast
  let ?report = "map report_of (map set_final_ending fd2)"
  have pd: "processData targetSales targetTax dfOpen dfPurch dfRet dfSales = Inr ?report"
    using 1(1) 2(1) by (simp add: processData_def)
  have s: "reduce_sum r_sales ?report = targetSales"
    unfolding reduce_sum_eq report_sales using 1(2) 2(3) by simp
  have t: "reduce_sum r_tax ?report = targetTax"
    unfolding reduce_sum_eq report_tax using 2(2) by simp
  show ?thesis using pd s t by blast
qed

section \<open>Folds of updates at distinct indices\<close>

lemma upd_fold_length:
  "length (foldl (\<lambda>xs ri. xs[snd ri := h (fst ri) (xs ! snd ri)]) xs ris) = length xs"
  by (induction ris arbitrary: xs) simp_all

lemma upd_fold_other:
  "j \<notin> snd ` set ris \<Longrightarrow>
   foldl (\<lambda>xs ri. xs[snd ri := h (fst ri) (xs ! snd ri)]) xs ris ! j = xs ! j"
  by (induction ris arbitrary: xs) simp_all

lemma upd_fold_at:
  "distinct (map snd ris) \<Longrightarrow> ri \<in> set ris \<Longrightarrow> snd ri < length xs \<Longrightarrow>
   foldl (\<lambda>xs ri. xs[snd ri := h (fst ri) (xs ! snd ri)]) xs ris ! snd ri = h (fst ri) (xs ! snd ri)"
proof (induction ris arbitrary: xs)
  case Nil
  then show ?case by simp
next
  case (Cons a ris)
  show ?case
  proof (cases "ri = a")
    case True
    with Cons.prems show ?thesis by (simp add: upd_fold_other)
  next
    case False
    with Cons.prems have in_rest: "ri \<in> set ris" by simp
    from Cons.prems(1) have "snd a \<notin> snd ` set ris" by simp
    with in_rest have ne: "snd ri \<noteq> snd a" by (metis imageI)
    from Cons.IH[OF _ in_rest, of "xs[snd a := h (fst a) (xs ! snd a)]"] Cons.prems ne
    show ?thesis by simp
  qed
qed

lemma upd_fold_map_same:
  "(\<And>a r. f (h a r) = f r) \<Longrightarrow>
   map f (foldl (\<lambda>xs ri. xs[snd ri := h (fst ri) (xs ! snd ri)]) xs ris) = map f xs"
  by (induction ris arbitrary: xs) (simp_all add: map_update_same)

section \<open>The two loops as folds of updates\<close>

lemma neg_loop_data:
  "mv_data (foldl neg_step m ris) =
   foldl (\<lambda>xs ri. xs[snd ri := donor_update (fst ri) (xs ! snd ri)]) (mv_data m) ris"
  by (induction ris arbitrary: m) (simp_all add: neg_step_def subtract_at_def donor_update_def)

lemma neg_loop_totals:
  "totalMoveQty (foldl neg_step m ris) = totalMoveQty m + sum_list (map (\<lambda>ri. moveQty (fst ri)) ris)"
  "totalMoveSales (foldl neg_step m ris) = totalMoveSales m + sum_list (map (\<lambda>ri. moveSales (fst ri)) ris)"
  "totalMoveTax (foldl neg_step m ris) = totalMoveTax m + sum_list (map (\<lambda>ri. moveTax (fst ri)) ris)"
  by (induction ris arbitrary: m) (simp_all add: neg_step_def add.assoc)

lemma pos_loop_data:
  "foldl (pos_step T tq ts tt) xs ris =
   foldl (\<lambda>xs ri. xs[snd ri := recipient_update T tq ts tt (fst ri) (xs ! snd ri)]) xs ris"
  by (induction ris arbitrary: xs) (simp_all add: pos_step_def recipient_update_def Let_def)

section \<open>The index copies\<close>

lemma zip_upt_mem: "(r, i) \<in> set (zip xs [0..<length xs]) \<Longrightarrow> i < length xs \<and> r = xs ! i"
  by (auto simp: set_zip)

lemma zip_upt_distinct: "distinct (map snd (zip xs [0..<length xs]))"
  by (simp add: map_snd_zip)

lemma grpIndices_mem:
  "(r, i) \<in> set (grpIndices xs g) \<Longrightarrow> i < length xs \<and> r = xs ! i \<and> s_tax_pct r = g"
  by (auto simp: grpIndices_def dest: zip_upt_mem)

lemma grpIndices_distinct: "distinct (map snd (grpIndices xs g))"
  unfolding grpIndices_def by (rule distinct_map_filter) (rule zip_upt_distinct)

lemma negItems_mem:
  "(r, i) \<in> set (negItems xs g) \<Longrightarrow>
   i < length xs \<and> r = xs ! i \<and> s_tax_pct r = g \<and> ending r < 0"
  by (auto simp: negItems_def dest: grpIndices_mem)

lemma posItems_mem:
  "(r, i) \<in> set (posItems xs g) \<Longrightarrow>
   i < length xs \<and> r = xs ! i \<and> s_tax_pct r = g \<and> ending r > 0 \<and> s_total r > 0"
  by (auto simp: posItems_def dest: grpIndices_mem)

lemma negItems_distinct: "distinct (map snd (negItems xs g))"
  unfolding negItems_def by (rule distinct_map_filter) (rule grpIndices_distinct)

lemma posItems_distinct: "distinct (map snd (posItems xs g))"
  unfolding posItems_def by (rule distinct_map_filter) (rule grpIndices_distinct)

lemma neg_pos_disjoint:
  assumes "(r, i) \<in> set (negItems xs g)"
  shows "i \<notin> snd ` set (posItems xs g)"
proof
  assume "i \<in> snd ` set (posItems xs g)"
  then obtain r' where b: "(r', i) \<in> set (posItems xs g)" by auto
  from negItems_mem[OF assms] have "ending (xs ! i) < 0" by blast
  moreover from posItems_mem[OF b] have "0 < ending (xs ! i)" by blast
  ultimately show False by simp
qed

lemma pos_neg_disjoint:
  assumes "(r, i) \<in> set (posItems xs g)"
  shows "i \<notin> snd ` set (negItems xs g)"
proof
  assume "i \<in> snd ` set (negItems xs g)"
  then obtain r' where b: "(r', i) \<in> set (negItems xs g)" by auto
  from neg_pos_disjoint[OF b] assms show False by force
qed

section \<open>One tax group\<close>

lemma redistribute_group_idle:
  "negItems xs g = [] \<or> posItems xs g = [] \<Longrightarrow> redistribute_group xs g = xs"
  by (auto simp: redistribute_group_def Let_def)

lemma redistribute_group_active:
  assumes "negItems xs g \<noteq> []" "posItems xs g \<noteq> []"
  shows "redistribute_group xs g =
     foldl (\<lambda>ys ri. ys[snd ri := recipient_update (grpTotalPosSales xs g) (grpMoveQty xs g)
                                   (grpMoveSales xs g) (grpMoveTax xs g) (fst ri) (ys ! snd ri)])
       (foldl (\<lambda>ys ri. ys[snd ri := donor_update (fst ri) (ys ! snd ri)]) xs (negItems xs g))
       (posItems xs g)"
  using assms
  by (simp add: redistribute_group_def Let_def pos_loop_data neg_loop_data neg_loop_totals
      reduce_sum_eq grpTotalPosSales_def grpMoveQty_def grpMoveSales_def grpMoveTax_def)

lemma redistribute_group_length: "length (redistribute_group xs g) = length xs"
  by (cases "negItems xs g = [] \<or> posItems xs g = []")
     (simp_all add: redistribute_group_idle redistribute_group_active upd_fold_length)

lemma redistribute_group_donor:
  assumes "negItems xs g \<noteq> []" "posItems xs g \<noteq> []" "(r, i) \<in> set (negItems xs g)"
  shows "redistribute_group xs g ! i = donor_update r r"
proof -
  from negItems_mem[OF assms(3)] have i: "i < length xs" and r: "r = xs ! i" by simp_all
  have "redistribute_group xs g ! i =
        foldl (\<lambda>ys ri. ys[snd ri := donor_update (fst ri) (ys ! snd ri)]) xs (negItems xs g) ! i"
    unfolding redistribute_group_active[OF assms(1,2)]
    by (rule upd_fold_other) (rule neg_pos_disjoint[OF assms(3)])
  also have "\<dots> = donor_update r (xs ! i)"
    using upd_fold_at[OF negItems_distinct assms(3), of xs donor_update] i by simp
  finally show ?thesis using r by simp
qed

lemma redistribute_group_recipient:
  assumes "negItems xs g \<noteq> []" "posItems xs g \<noteq> []" "(r, i) \<in> set (posItems xs g)"
  shows "redistribute_group xs g ! i =
     recipient_update (grpTotalPosSales xs g) (grpMoveQty xs g) (grpMoveSales xs g) (grpMoveTax xs g) r r"
proof -
  let ?h = "recipient_update (grpTotalPosSales xs g) (grpMoveQty xs g) (grpMoveSales xs g) (grpMoveTax xs g)"
  let ?ys = "foldl (\<lambda>ys ri. ys[snd ri := donor_update (fst ri) (ys ! snd ri)]) xs (negItems xs g)"
  from posItems_mem[OF assms(3)] have i: "i < length xs" and r: "r = xs ! i" by simp_all
  have len: "i < length ?ys" using i by (simp add: upd_fold_length)
  have "redistribute_group xs g ! i = ?h r (?ys ! i)"
    unfolding redistribute_group_active[OF assms(1,2)]
    using upd_fold_at[OF posItems_distinct assms(3), of ?ys ?h] len by simp
  also have "?ys ! i = xs ! i"
    by (rule upd_fold_other) (rule pos_neg_disjoint[OF assms(3)])
  finally show ?thesis using r by simp
qed

lemma redistribute_group_other:
  assumes "i < length xs" "s_tax_pct (xs ! i) \<noteq> g"
  shows "redistribute_group xs g ! i = xs ! i"
proof (cases "negItems xs g = [] \<or> posItems xs g = []")
  case True
  then show ?thesis by (simp add: redistribute_group_idle)
next
  case False
  have n: "i \<notin> snd ` set (negItems xs g)"
    using assms(2) negItems_mem by fastforce
  have p: "i \<notin> snd ` set (posItems xs g)"
    using assms(2) posItems_mem by fastforce
  from False show ?thesis
    by (simp add: redistribute_group_active upd_fold_other[OF p] upd_fold_other[OF n])
qed

lemma redistribute_group_map_same:
  assumes "\<And>r q t x. f (r\<lparr>s_qty := q, s_total := t, s_tax_amt := x\<rparr>) = f r"
  shows "map f (redistribute_group xs g) = map f xs"
proof (cases "negItems xs g = [] \<or> posItems xs g = []")
  case True
  then show ?thesis by (simp add: redistribute_group_idle)
next
  case False
  have d: "\<And>a r. f (donor_update a r) = f r" by (simp add: donor_update_def assms)
  have p: "\<And>T tq ts tt a r. f (recipient_update T tq ts tt a r) = f r"
    by (simp add: recipient_update_def assms)
  let ?h = "recipient_update (grpTotalPosSales xs g) (grpMoveQty xs g) (grpMoveSales xs g) (grpMoveTax xs g)"
  let ?ys = "foldl (\<lambda>ys ri. ys[snd ri := donor_update (fst ri) (ys ! snd ri)]) xs (negItems xs g)"
  have 1: "map f (foldl (\<lambda>ys ri. ys[snd ri := ?h (fst ri) (ys ! snd ri)]) ?ys (posItems xs g)) = map f ?ys"
    by (rule upd_fold_map_same) (rule p)
  have 2: "map f ?ys = map f xs"
    by (rule upd_fold_map_same) (rule d)
  from False have "redistribute_group xs g =
      foldl (\<lambda>ys ri. ys[snd ri := ?h (fst ri) (ys ! snd ri)]) ?ys (posItems xs g)"
    by (simp add: redistribute_group_active)
  with 1 2 show ?thesis by simp
qed

section \<open>Groups without donors or without recipients\<close>

lemma negItems_empty_iff:
  "negItems xs g = [] \<longleftrightarrow> (\<forall>j<length xs. s_tax_pct (xs ! j) = g \<longrightarrow> \<not> ending (xs ! j) < 0)"
  by (auto simp: negItems_def grpIndices_def filter_empty_conv set_zip)

lemma posItems_empty_iff:
  "posItems xs g = [] \<longleftrightarrow>
   (\<forall>j<length xs. s_tax_pct (xs ! j) = g \<longrightarrow> \<not> (ending (xs ! j) > 0 \<and> s_total (xs ! j) > 0))"
  by (auto simp: posItems_def grpIndices_def filter_empty_conv set_zip)

lemma group_step_keeps:
  assumes idle: "negItems xs g = [] \<or> posItems xs g = []"
    and len: "length ys = length xs"
    and pct: "\<forall>j<length xs. s_tax_pct (ys ! j) = s_tax_pct (xs ! j)"
    and kept: "\<forall>j<length xs. s_tax_pct (xs ! j) = g \<longrightarrow> ys ! j = xs ! j"
  shows "length (redistribute_group ys g') = length xs
     \<and> (\<forall>j<length xs. s_tax_pct (redistribute_group ys g' ! j) = s_tax_pct (xs ! j))
     \<and> (\<forall>j<length xs. s_tax_pct (xs ! j) = g \<longrightarrow> redistribute_group ys g' ! j = xs ! j)"
proof (intro conjI allI impI)
  show "length (redistribute_group ys g') = length xs"
    using len by (simp add: redistribute_group_length)
next
  fix j assume j: "j < length xs"
  have "map s_tax_pct (redistribute_group ys g') = map s_tax_pct ys"
    by (rule redistribute_group_map_same) simp
  then have "map s_tax_pct (redistribute_group ys g') ! j = map s_tax_pct ys ! j" by simp
  then show "s_tax_pct (redistribute_group ys g' ! j) = s_tax_pct (xs ! j)"
    using j len pct by (simp add: redistribute_group_length)
next
  fix j assume j: "j < length xs" and g: "s_tax_pct (xs ! j) = g"
  show "redistribute_group ys g' ! j = xs ! j"
  proof (cases "g' = g")
    case True
    have "negItems ys g = [] \<or> posItems ys g = []"
      using idle len pct kept unfolding negItems_empty_iff posItems_empty_iff by metis
    then show ?thesis using True kept j g by (simp add: redistribute_group_idle)
  next
    case False
    have "s_tax_pct (ys ! j) \<noteq> g'" using False pct j g by simp
    then have "redistribute_group ys g' ! j = ys ! j"
      using j len by (simp add: redistribute_group_other)
    then show ?thesis using kept j g by simp
  qed
qed

lemma group_fold_keeps:
  assumes "negItems xs g = [] \<or> posItems xs g = []"
  shows "length ys = length xs \<Longrightarrow>
     \<forall>j<length xs. s_tax_pct (ys ! j) = s_tax_pct (xs ! j) \<Longrightarrow>
     \<forall>j<length xs. s_tax_pct (xs ! j) = g \<longrightarrow> ys ! j = xs ! j \<Longrightarrow>
     \<forall>j<length xs. s_tax_pct (xs ! j) = g \<longrightarrow> foldl redistribute_group ys gs ! j = xs ! j"
proof (induction gs arbitrary: ys)
  case Nil
  then show ?case by simp
next
  case (Cons g' gs)
  from group_step_keeps[OF assms Cons.prems, of g']
  show ?case using Cons.IH[of "redistribute_group ys g'"] by simp
qed

text \<open>
  Claim C8. When the donors (ending balance below 0) or the recipients (ending balance above 0
  and sales amount above 0) of a tax group are empty, every record of that group is, after the
  whole redistribution, the record it was before: quantity, sales amount and tax keep their
  values.
\<close>

theorem idle_bracket_unchanged:
  assumes "negItems finalData g = [] \<or> posItems finalData g = []"
    and "i < length finalData" and "s_tax_pct (finalData ! i) = g"
  shows "redistribute finalData ! i = finalData ! i"
  using group_fold_keeps[OF assms(1), of finalData "taxGroups finalData"] assms(2,3)
  by (simp add: redistribute_def)

section \<open>Conservation\<close>

lemma sum_list_pos_nonempty:
  "xs \<noteq> [] \<Longrightarrow> \<forall>x \<in> set xs. 0 < f x \<Longrightarrow> 0 < sum_list (map f xs)"
  for f :: "'a \<Rightarrow> rat"
proof (induction xs)
  case Nil
  then show ?case by simp
next
  case (Cons a xs)
  then show ?case by (cases "xs = []") (simp_all add: add_pos_pos)
qed

lemma grpTotalPosSales_pos: "posItems xs g \<noteq> [] \<Longrightarrow> 0 < grpTotalPosSales xs g"
  unfolding grpTotalPosSales_def
  by (rule sum_list_pos_nonempty) (auto dest: posItems_mem)

lemma sum_list_weighted:
  "T \<noteq> 0 \<Longrightarrow> sum_list (map (\<lambda>x. f x / T * c) xs) = sum_list (map f xs) / T * c"
  for f :: "'a \<Rightarrow> rat"
  by (induction xs) (simp_all add: add_divide_distrib distrib_right)

lemma weights_total:
  assumes "posItems xs g \<noteq> []"
  shows "sum_list (map (\<lambda>ri. s_total (fst ri) / grpTotalPosSales xs g * c) (posItems xs g)) = c"
proof -
  have T: "grpTotalPosSales xs g \<noteq> 0" using grpTotalPosSales_pos[OF assms] by simp
  show ?thesis
    unfolding sum_list_weighted[OF T]
    using T by (simp add: grpTotalPosSales_def)
qed

lemma donor_terms:
  assumes "negItems xs g \<noteq> []" "posItems xs g \<noteq> []"
  shows "map (\<lambda>ri. s_qty (fst ri) - s_qty (redistribute_group xs g ! snd ri)) (negItems xs g)
           = map (\<lambda>ri. moveQty (fst ri)) (negItems xs g)"
    and "map (\<lambda>ri. s_total (fst ri) - s_total (redistribute_group xs g ! snd ri)) (negItems xs g)
           = map (\<lambda>ri. moveSales (fst ri)) (negItems xs g)"
    and "map (\<lambda>ri. s_tax_amt (fst ri) - s_tax_amt (redistribute_group xs g ! snd ri)) (negItems xs g)
           = map (\<lambda>ri. moveTax (fst ri)) (negItems xs g)"
proof -
  have *: "redistribute_group xs g ! snd ri = donor_update (fst ri) (fst ri)"
    if "ri \<in> set (negItems xs g)" for ri
    using redistribute_group_donor[OF assms, of "fst ri" "snd ri"] that by simp
  show "map (\<lambda>ri. s_qty (fst ri) - s_qty (redistribute_group xs g ! snd ri)) (negItems xs g)
           = map (\<lambda>ri. moveQty (fst ri)) (negItems xs g)"
    by (rule map_cong[OF refl]) (simp add: * donor_update_def)
  show "map (\<lambda>ri. s_total (fst ri) - s_total (redistribute_group xs g ! snd ri)) (negItems xs g)
           = map (\<lambda>ri. moveSales (fst ri)) (negItems xs g)"
    by (rule map_cong[OF refl]) (simp add: * donor_update_def)
  show "map (\<lambda>ri. s_tax_amt (fst ri) - s_tax_amt (redistribute_group xs g ! snd ri)) (negItems xs g)
           = map (\<lambda>ri. moveTax (fst ri)) (negItems xs g)"
    by (rule map_cong[OF refl]) (simp add: * donor_update_def)
qed

lemma recipient_terms:
  assumes "negItems xs g \<noteq> []" "posItems xs g \<noteq> []"
  shows "map (\<lambda>ri. s_qty (redistribute_group xs g ! snd ri) - s_qty (fst ri)) (posItems xs g)
           = map (\<lambda>ri. s_total (fst ri) / grpTotalPosSales xs g * grpMoveQty xs g) (posItems xs g)"
    and "map (\<lambda>ri. s_total (redistribute_group xs g ! snd ri) - s_total (fst ri)) (posItems xs g)
           = map (\<lambda>ri. s_total (fst ri) / grpTotalPosSales xs g * grpMoveSales xs g) (posItems xs g)"
    and "map (\<lambda>ri. s_tax_amt (redistribute_group xs g ! snd ri) - s_tax_amt (fst ri)) (posItems xs g)
           = map (\<lambda>ri. s_total (fst ri) / grpTotalPosSales xs g * grpMoveTax xs g) (posItems xs g)"
proof -
  have *: "redistribute_group xs g ! snd ri =
      recipient_update (grpTotalPosSales xs g) (grpMoveQty xs g) (grpMoveSales xs g) (grpMoveTax xs g)
        (fst ri) (fst ri)"
    if "ri \<in> set (posItems xs g)" for ri
    using redistribute_group_recipient[OF assms, of "fst ri" "snd ri"] that by simp
  show "map (\<lambda>ri. s_qty (redistribute_group xs g ! snd ri) - s_qty (fst ri)) (posItems xs g)
           = map (\<lambda>ri. s_total (fst ri) / grpTotalPosSales xs g * grpMoveQty xs g) (posItems xs g)"
    by (rule map_cong[OF refl]) (simp add: * recipient_update_def)
  show "map (\<lambda>ri. s_total (redistribute_group xs g ! snd ri) - s_total (fst ri)) (posItems xs g)
           = map (\<lambda>ri. s_total (fst ri) / grpTotalPosSales xs g * grpMoveSales xs g) (posItems xs g)"
    by (rule map_cong[OF refl]) (simp add: * recipient_update_def)
  show "map (\<lambda>ri. s_tax_amt (redistribute_group xs g ! snd ri) - s_tax_amt (fst ri)) (posItems xs g)
           = map (\<lambda>ri. s_total (fst ri) / grpTotalPosSales xs g * grpMoveTax xs g) (posItems xs g)"
    by (rule map_cong[OF refl]) (simp add: * recipient_update_def)
qed

lemma idle_terms:
  fixes f :: "item \<Rightarrow> rat"
  shows "map (\<lambda>ri. f (fst ri) - f (xs ! snd ri)) (negItems xs g) = map (\<lambda>ri. 0) (negItems xs g)"
    and "map (\<lambda>ri. f (xs ! snd ri) - f (fst ri)) (posItems xs g) = map (\<lambda>ri. 0) (posItems xs g)"
proof -
  have n: "fst ri = xs ! snd ri" if "ri \<in> set (negItems xs g)" for ri
    using that negItems_mem[of "fst ri" "snd ri" xs g] by simp
  have p: "fst ri = xs ! snd ri" if "ri \<in> set (posItems xs g)" for ri
    using that posItems_mem[of "fst ri" "snd ri" xs g] by simp
  show "map (\<lambda>ri. f (fst ri) - f (xs ! snd ri)) (negItems xs g) = map (\<lambda>ri. 0) (negItems xs g)"
    by (rule map_cong[OF refl]) (simp add: n)
  show "map (\<lambda>ri. f (xs ! snd ri) - f (fst ri)) (posItems xs g) = map (\<lambda>ri. 0) (posItems xs g)"
    by (rule map_cong[OF refl]) (simp add: p)
qed

text \<open>
  In exact arithmetic, for every tax group, what the redistribution of that group takes from
  its donors equals what it gives to its recipients, separately for quantity, sales amount
  and tax: the weights of the recipients add up to 1. The group in binary64 is treated
  further below.
\<close>

lemma rational_conservation:
  "sum_list (map (\<lambda>ri. s_qty (fst ri) - s_qty (redistribute_group finalData taxGrp ! snd ri))
              (negItems finalData taxGrp))
   = sum_list (map (\<lambda>ri. s_qty (redistribute_group finalData taxGrp ! snd ri) - s_qty (fst ri))
              (posItems finalData taxGrp))
 \<and> sum_list (map (\<lambda>ri. s_total (fst ri) - s_total (redistribute_group finalData taxGrp ! snd ri))
              (negItems finalData taxGrp))
   = sum_list (map (\<lambda>ri. s_total (redistribute_group finalData taxGrp ! snd ri) - s_total (fst ri))
              (posItems finalData taxGrp))
 \<and> sum_list (map (\<lambda>ri. s_tax_amt (fst ri) - s_tax_amt (redistribute_group finalData taxGrp ! snd ri))
              (negItems finalData taxGrp))
   = sum_list (map (\<lambda>ri. s_tax_amt (redistribute_group finalData taxGrp ! snd ri) - s_tax_amt (fst ri))
              (posItems finalData taxGrp))"
proof (cases "negItems finalData taxGrp = [] \<or> posItems finalData taxGrp = []")
  case True
  then have "redistribute_group finalData taxGrp = finalData" by (rule redistribute_group_idle)
  then show ?thesis by (simp add: idle_terms)
next
  case False
  then have a: "negItems finalData taxGrp \<noteq> []" "posItems finalData taxGrp \<noteq> []" by simp_all
  show ?thesis
    unfolding donor_terms[OF a] recipient_terms[OF a] weights_total[OF a(2)]
    by (simp add: grpMoveQty_def grpMoveSales_def grpMoveTax_def)
qed

lemmas partition_defs = negItems_def posItems_def grpIndices_def upt_rec[of 0] upt_rec[of 1]
  upt_rec[of 2] upt_rec[of 3]

section \<open>Examples for the redistribution\<close>

theorem idle_bracket_unchanged_witness:
  "(negItems exIdle 9 = [] \<or> posItems exIdle 9 = []) \<and> 0 < length exIdle
   \<and> s_tax_pct (exIdle ! 0) = 9 \<and> redistribute exIdle ! 0 = exIdle ! 0"
proof -
  have h1: "negItems exIdle 9 = [] \<or> posItems exIdle 9 = []"
    by (simp add: exIdle_def partition_defs)
  have h2: "0 < length exIdle" by (simp add: exIdle_def)
  have h3: "s_tax_pct (exIdle ! 0) = 9" by (simp add: exIdle_def)
  from idle_bracket_unchanged[OF h1 h2 h3] h1 h2 h3 show ?thesis by blast
qed

section \<open>The fraction moved away from a donor\<close>

text \<open>
  Claim C3, as amended. In a tax group that has donors and recipients, each donor loses the
  fraction \<open>min 1 (\<bar>ending\<bar> / d)\<close> of its sold quantity, sales amount and tax, where the
  denominator \<open>d\<close> is the sold quantity when that is not zero and 1 when it is zero (the
  truthiness guard of line 202). This is \<open>min 1 (\<bar>ending\<bar> / max quantity 1)\<close> whenever the
  sold quantity is 0 or at least 1.
\<close>

theorem donor_fraction:
  assumes "negItems finalData taxGrp \<noteq> []" and "posItems finalData taxGrp \<noteq> []"
    and "(r, i) \<in> set (negItems finalData taxGrp)"
  shows "deficitRatio r = min 1 (\<bar>ending r\<bar> / (if s_qty r = 0 then 1 else s_qty r))
     \<and> s_qty (redistribute_group finalData taxGrp ! i) = s_qty r - s_qty r * deficitRatio r
     \<and> s_total (redistribute_group finalData taxGrp ! i) = s_total r - s_total r * deficitRatio r
     \<and> s_tax_amt (redistribute_group finalData taxGrp ! i) = s_tax_amt r - s_tax_amt r * deficitRatio r
     \<and> (s_qty r = 0 \<or> 1 \<le> s_qty r \<longrightarrow> deficitRatio r = min 1 (\<bar>ending r\<bar> / max (s_qty r) 1))"
proof -
  have "redistribute_group finalData taxGrp ! i = donor_update r r"
    using assms by (rule redistribute_group_donor)
  then show ?thesis
    by (auto simp: donor_update_def moveQty_def moveSales_def moveTax_def deficitRatio_def max_def)
qed

theorem donor_fraction_witness:
  "negItems exMerged 9 \<noteq> [] \<and> posItems exMerged 9 \<noteq> [] \<and> (exMerged ! 0, 0) \<in> set (negItems exMerged 9)
   \<and> deficitRatio (exMerged ! 0) = 1 / 4
   \<and> s_qty (redistribute_group exMerged 9 ! 0) = 15
   \<and> s_total (redistribute_group exMerged 9 ! 0) = 750
   \<and> s_tax_amt (redistribute_group exMerged 9 ! 0) = 135 / 2
   \<and> min 1 (\<bar>ending (exMerged ! 0)\<bar> / max (s_qty (exMerged ! 0)) 1) = 1 / 4"
proof -
  have h1: "negItems exMerged 9 \<noteq> []" by (simp add: exMerged_def partition_defs)
  have h2: "posItems exMerged 9 \<noteq> []" by (simp add: exMerged_def partition_defs)
  have h3: "(exMerged ! 0, 0) \<in> set (negItems exMerged 9)" by (simp add: exMerged_def partition_defs)
  have v: "s_qty (exMerged ! 0) = 20" "s_total (exMerged ! 0) = 1000" "s_tax_amt (exMerged ! 0) = 90"
    "ending (exMerged ! 0) = - 5"
    by (simp_all add: exMerged_def)
  from donor_fraction[OF h1 h2 h3] h1 h2 h3 show ?thesis
    by (simp add: v)
qed

text \<open>
  With a sold quantity of one half and an ending balance of minus one half the donor loses all
  of its quantity, not the half that \<open>max quantity 1\<close> in the denominator would give.
\<close>

theorem donor_fraction_counterexample:
  "(exFraction ! 0, 0) \<in> set (negItems exFraction 9) \<and> posItems exFraction 9 \<noteq> []
   \<and> s_qty (exFraction ! 0) - s_qty (redistribute_group exFraction 9 ! 0) = s_qty (exFraction ! 0) * 1
   \<and> min 1 (\<bar>ending (exFraction ! 0)\<bar> / max (s_qty (exFraction ! 0)) 1) = 1 / 2
   \<and> s_qty (exFraction ! 0) - s_qty (redistribute_group exFraction 9 ! 0)
       \<noteq> s_qty (exFraction ! 0) * min 1 (\<bar>ending (exFraction ! 0)\<bar> / max (s_qty (exFraction ! 0)) 1)"
  by (simp add: exFraction_def partition_defs redistribute_group_def neg_step_def pos_step_def
      subtract_at_def moveQty_def moveSales_def moveTax_def deficitRatio_def reduce_sum_def Let_def)

section \<open>A donor that sold nothing\<close>

text \<open>
  Claim C7, as amended. The pass of the donor loop over a donor whose sold quantity is zero
  leaves the quantity of the record unchanged and adds nothing to the total quantity to move;
  of the sales amount and of the tax it takes the fraction \<open>min 1 \<bar>ending\<bar>\<close> from the record
  and adds it to the totals to move, so these stay unchanged only when they are zero.
\<close>

theorem zero_quantity_donor:
  assumes "s_qty r = 0" and "i < length (mv_data m)"
  shows "s_qty (mv_data (neg_step m (r, i)) ! i) = s_qty (mv_data m ! i)
     \<and> totalMoveQty (neg_step m (r, i)) = totalMoveQty m
     \<and> s_total (mv_data (neg_step m (r, i)) ! i) = s_total (mv_data m ! i) - s_total r * min 1 \<bar>ending r\<bar>
     \<and> totalMoveSales (neg_step m (r, i)) = totalMoveSales m + s_total r * min 1 \<bar>ending r\<bar>
     \<and> s_tax_amt (mv_data (neg_step m (r, i)) ! i) = s_tax_amt (mv_data m ! i) - s_tax_amt r * min 1 \<bar>ending r\<bar>
     \<and> totalMoveTax (neg_step m (r, i)) = totalMoveTax m + s_tax_amt r * min 1 \<bar>ending r\<bar>"
  using assms
  by (simp add: neg_step_def subtract_at_def moveQty_def moveSales_def moveTax_def deficitRatio_def)

theorem zero_quantity_donor_witness:
  "s_qty (exZeroQty ! 0) = 0 \<and> 0 < length (mv_data exStart)
   \<and> s_qty (mv_data (neg_step exStart (exZeroQty ! 0, 0)) ! 0) = 0
   \<and> totalMoveQty (neg_step exStart (exZeroQty ! 0, 0)) = 0
   \<and> s_total (mv_data (neg_step exStart (exZeroQty ! 0, 0)) ! 0) = 0
   \<and> totalMoveSales (neg_step exStart (exZeroQty ! 0, 0)) = 100
   \<and> s_tax_amt (mv_data (neg_step exStart (exZeroQty ! 0, 0)) ! 0) = 0
   \<and> totalMoveTax (neg_step exStart (exZeroQty ! 0, 0)) = 9"
proof -
  have h1: "s_qty (exZeroQty ! 0) = 0" by (simp add: exZeroQty_def)
  have h2: "0 < length (mv_data exStart)" by (simp add: exStart_def exZeroQty_def)
  have v: "s_total (exZeroQty ! 0) = 100" "s_tax_amt (exZeroQty ! 0) = 9" "ending (exZeroQty ! 0) = - 2"
    "mv_data exStart ! 0 = exZeroQty ! 0" "totalMoveQty exStart = 0" "totalMoveSales exStart = 0"
    "totalMoveTax exStart = 0"
    by (simp_all add: exZeroQty_def exStart_def)
  from zero_quantity_donor[OF h1 h2] h1 h2 show ?thesis
    by (simp add: v)
qed

text \<open>
  A donor with no sold quantity, a sales amount of 100 and an ending balance of minus 2 loses
  its whole sales amount, which goes to the total to move.
\<close>

theorem zero_quantity_donor_counterexample:
  "(exZeroQty ! 0, 0) \<in> set (negItems exZeroQty 9) \<and> s_qty (exZeroQty ! 0) = 0
   \<and> s_total (exZeroQty ! 0) = 100
   \<and> s_total (mv_data (neg_step exStart (exZeroQty ! 0, 0)) ! 0) = 0
   \<and> s_total (mv_data (neg_step exStart (exZeroQty ! 0, 0)) ! 0) \<noteq> s_total (exZeroQty ! 0)
   \<and> totalMoveSales (neg_step exStart (exZeroQty ! 0, 0)) = 100
   \<and> totalMoveSales (neg_step exStart (exZeroQty ! 0, 0)) \<noteq> 0"
  by (simp add: exZeroQty_def exStart_def partition_defs neg_step_def subtract_at_def moveQty_def
      moveSales_def moveTax_def deficitRatio_def)

section \<open>Aggregation skips empty keys and reads unparsable values as zero\<close>

lemma get_or0_update: "get_or0 (AList.update k v m) k' = (if k' = k then v else get_or0 m k')"
  by (simp add: get_or0_def update_conv')

lemma parsesNaN_undefined: "parsesNaN None"
  by (simp add: parsesNaN_def infinityLiteral_def pf_defs)

lemma parsesNaN_or0: "v = None \<or> parsesNaN v \<Longrightarrow> or0 (parseFloat v) = 0"
  by (auto simp: parsesNaN_def or0_def parseFloat_undefined)

lemma groupBySum_step_skip:
  "or_empty (row groupCol) = [] \<Longrightarrow> groupBySum_step groupCol sumCol result row = result"
  by (simp add: groupBySum_step_def Let_def)

lemma groupBySum_fold_sum:
  "get_or0 (foldl (groupBySum_step groupCol sumCol) result rows) k =
   get_or0 result k +
   sum_list (map (\<lambda>row. or0 (parseFloat (row (ToString sumCol))))
                 (filter (\<lambda>row. or_empty (row groupCol) = k \<and> k \<noteq> []) rows))"
proof (induction rows arbitrary: result)
  case Nil
  then show ?case by simp
next
  case (Cons row rows)
  show ?case
    unfolding foldl_Cons Cons.IH
    by (auto simp: groupBySum_step_def Let_def get_or0_update)
qed

lemma groupBySum_sum:
  "get_or0 (groupBySum rows groupCol sumCol) k =
   sum_list (map (\<lambda>row. or0 (parseFloat (row (ToString sumCol))))
                 (filter (\<lambda>row. or_empty (row groupCol) = k \<and> k \<noteq> []) rows))"
  unfolding groupBySum_def groupBySum_fold_sum by (simp add: get_or0_def)

lemma sales_step_skip: "or_empty (row COL_S_CODE) = [] \<Longrightarrow> sales_step st row = st"
  by (simp add: sales_step_def Let_def)

lemma sold_step:
  "sold_qty (fst (sales_step st row)) k =
   sold_qty (fst st) k +
   (if or_empty (row COL_S_CODE) = k \<and> k \<noteq> [] then or0 (parseFloat (row COL_S_QTY)) else 0)"
  "sold_total (fst (sales_step st row)) k =
   sold_total (fst st) k +
   (if or_empty (row COL_S_CODE) = k \<and> k \<noteq> [] then or0 (parseFloat (row COL_S_TOTAL)) else 0)"
  "sold_tax (fst (sales_step st row)) k =
   sold_tax (fst st) k +
   (if or_empty (row COL_S_CODE) = k \<and> k \<noteq> [] then or0 (parseFloat (row COL_S_TAX_AMT)) else 0)"
  by (auto simp: sales_step_def Let_def sold_qty_def sold_total_def sold_tax_def update_conv'
      split: option.splits)

lemma sold_qty_fold:
  "sold_qty (fst (foldl sales_step st rows)) k =
   sold_qty (fst st) k +
   sum_list (map (\<lambda>row. or0 (parseFloat (row COL_S_QTY)))
                 (filter (\<lambda>row. or_empty (row COL_S_CODE) = k \<and> k \<noteq> []) rows))"
proof (induction rows arbitrary: st)
  case Nil
  then show ?case by simp
next
  case (Cons row rows)
  show ?case
    unfolding foldl_Cons Cons.IH sold_step by simp
qed

lemma sold_total_fold:
  "sold_total (fst (foldl sales_step st rows)) k =
   sold_total (fst st) k +
   sum_list (map (\<lambda>row. or0 (parseFloat (row COL_S_TOTAL)))
                 (filter (\<lambda>row. or_empty (row COL_S_CODE) = k \<and> k \<noteq> []) rows))"
proof (induction rows arbitrary: st)
  case Nil
  then show ?case by simp
next
  case (Cons row rows)
  show ?case
    unfolding foldl_Cons Cons.IH sold_step by simp
qed

lemma sold_tax_fold:
  "sold_tax (fst (foldl sales_step st rows)) k =
   sold_tax (fst st) k +
   sum_list (map (\<lambda>row. or0 (parseFloat (row COL_S_TAX_AMT)))
                 (filter (\<lambda>row. or_empty (row COL_S_CODE) = k \<and> k \<noteq> []) rows))"
proof (induction rows arbitrary: st)
  case Nil
  then show ?case by simp
next
  case (Cons row rows)
  show ?case
    unfolding foldl_Cons Cons.IH sold_step by simp
qed

lemma merge_row_qty: "s_qty (merge_row inventory salesAgg taxMap c) = sold_qty salesAgg c"
  by (simp add: merge_row_def Let_def sold_qty_def split: option.splits)

lemma merge_row_total: "s_total (merge_row inventory salesAgg taxMap c) = sold_total salesAgg c"
  by (simp add: merge_row_def Let_def sold_total_def split: option.splits)

lemma merge_row_tax: "s_tax_amt (merge_row inventory salesAgg taxMap c) = sold_tax salesAgg c"
  by (simp add: merge_row_def Let_def sold_tax_def split: option.splits)

text \<open>
  Claim C9. A row whose group key is the empty string (or absent) is skipped by the
  aggregation: the map is the one obtained without the row. A row whose value cell is absent
  or gives \<^verbatim>\<open>NaN\<close> under \<^verbatim>\<open>parseFloat\<close> adds exactly 0 to the sum of every key. Both hold
  for \<^verbatim>\<open>groupBySum\<close> and for the aggregation of the sales ledger, where the sums are the sold
  quantity, the sales amount and the tax amount of a product code, each with its own cell.
  No step of either aggregation can fail.
\<close>

theorem aggregation_tolerance:
  assumes "or_empty (skipped groupCol) = []"
    and "bad (ToString sumCol) = None \<or> parsesNaN (bad (ToString sumCol))"
    and "or_empty (skippedSale COL_S_CODE) = []"
  shows "groupBySum (rows1 @ skipped # rows2) groupCol sumCol = groupBySum (rows1 @ rows2) groupCol sumCol
     \<and> get_or0 (groupBySum (rows1 @ bad # rows2) groupCol sumCol) k
         = get_or0 (groupBySum (rows1 @ rows2) groupCol sumCol) k
     \<and> aggregate_sales (rows1 @ skippedSale # rows2) = aggregate_sales (rows1 @ rows2)
     \<and> (badSale COL_S_QTY = None \<or> parsesNaN (badSale COL_S_QTY) \<longrightarrow>
          s_qty (merge_row inventory (fst (aggregate_sales (rows1 @ badSale # rows2))) taxMap c)
            = s_qty (merge_row inventory (fst (aggregate_sales (rows1 @ rows2))) taxMap c))
     \<and> (badSale COL_S_TOTAL = None \<or> parsesNaN (badSale COL_S_TOTAL) \<longrightarrow>
          s_total (merge_row inventory (fst (aggregate_sales (rows1 @ badSale # rows2))) taxMap c)
            = s_total (merge_row inventory (fst (aggregate_sales (rows1 @ rows2))) taxMap c))
     \<and> (badSale COL_S_TAX_AMT = None \<or> parsesNaN (badSale COL_S_TAX_AMT) \<longrightarrow>
          s_tax_amt (merge_row inventory (fst (aggregate_sales (rows1 @ badSale # rows2))) taxMap c)
            = s_tax_amt (merge_row inventory (fst (aggregate_sales (rows1 @ rows2))) taxMap c))"
proof -
  have b: "or0 (parseFloat (bad (ToString sumCol))) = 0"
    using assms(2) by (rule parsesNaN_or0)
  have 1: "groupBySum (rows1 @ skipped # rows2) groupCol sumCol = groupBySum (rows1 @ rows2) groupCol sumCol"
    using assms(1) by (simp add: groupBySum_def groupBySum_step_skip)
  have 2: "get_or0 (groupBySum (rows1 @ bad # rows2) groupCol sumCol) k
         = get_or0 (groupBySum (rows1 @ rows2) groupCol sumCol) k"
    using b by (simp add: groupBySum_sum)
  have 3: "aggregate_sales (rows1 @ skippedSale # rows2) = aggregate_sales (rows1 @ rows2)"
    using assms(3) by (simp add: aggregate_sales_def sales_step_skip)
  have 4: "s_qty (merge_row inventory (fst (aggregate_sales (rows1 @ badSale # rows2))) taxMap c)
         = s_qty (merge_row inventory (fst (aggregate_sales (rows1 @ rows2))) taxMap c)"
    if "badSale COL_S_QTY = None \<or> parsesNaN (badSale COL_S_QTY)"
    unfolding merge_row_qty aggregate_sales_def sold_qty_fold using parsesNaN_or0[OF that] by simp
  have 5: "s_total (merge_row inventory (fst (aggregate_sales (rows1 @ badSale # rows2))) taxMap c)
         = s_total (merge_row inventory (fst (aggregate_sales (rows1 @ rows2))) taxMap c)"
    if "badSale COL_S_TOTAL = None \<or> parsesNaN (badSale COL_S_TOTAL)"
    unfolding merge_row_total aggregate_sales_def sold_total_fold using parsesNaN_or0[OF that] by simp
  have 6: "s_tax_amt (merge_row inventory (fst (aggregate_sales (rows1 @ badSale # rows2))) taxMap c)
         = s_tax_amt (merge_row inventory (fst (aggregate_sales (rows1 @ rows2))) taxMap c)"
    if "badSale COL_S_TAX_AMT = None \<or> parsesNaN (badSale COL_S_TAX_AMT)"
    unfolding merge_row_tax aggregate_sales_def sold_tax_fold using parsesNaN_or0[OF that] by simp
  from 1 2 3 4 5 6 show ?thesis by blast
qed

theorem aggregation_tolerance_witness:
  "or_empty (exNoCode COL_S_CODE) = []
   \<and> parsesNaN (exNotNumeric (ToString (Some COL_S_QTY)))
   \<and> parsesNaN (exNotNumeric COL_S_TOTAL)
   \<and> exNotNumeric COL_S_TAX_AMT = None
   \<and> groupBySum (data exOpen @ exNoCode # data exPurch) COL_S_CODE (Some COL_S_QTY)
       = groupBySum (data exOpen @ data exPurch) COL_S_CODE (Some COL_S_QTY)
   \<and> get_or0 (groupBySum (data exOpen @ exNotNumeric # data exPurch) COL_S_CODE (Some COL_S_QTY)) (str ''P1'')
       = get_or0 (groupBySum (data exOpen @ data exPurch) COL_S_CODE (Some COL_S_QTY)) (str ''P1'')
   \<and> get_or0 (groupBySum (data exOpen @ data exPurch) COL_S_CODE (Some COL_S_QTY)) (str ''P1'') = 15
   \<and> aggregate_sales (data exSales @ exNoCode # []) = aggregate_sales (data exSales @ [])
   \<and> s_qty (merge_row [] (fst (aggregate_sales (data exSales @ exNotNumeric # []))) [] (str ''P1''))
       = s_qty (merge_row [] (fst (aggregate_sales (data exSales @ []))) [] (str ''P1''))
   \<and> s_qty (merge_row [] (fst (aggregate_sales (data exSales @ []))) [] (str ''P1'')) = 20
   \<and> s_total (merge_row [] (fst (aggregate_sales (data exSales @ exNotNumeric # []))) [] (str ''P1''))
       = s_total (merge_row [] (fst (aggregate_sales (data exSales @ []))) [] (str ''P1''))
   \<and> s_total (merge_row [] (fst (aggregate_sales (data exSales @ []))) [] (str ''P1'')) = 1000
   \<and> s_tax_amt (merge_row [] (fst (aggregate_sales (data exSales @ exNotNumeric # []))) [] (str ''P1''))
       = s_tax_amt (merge_row [] (fst (aggregate_sales (data exSales @ []))) [] (str ''P1''))
   \<and> s_tax_amt (merge_row [] (fst (aggregate_sales (data exSales @ []))) [] (str ''P1'')) = 90"
proof -
  have h1: "or_empty (exNoCode COL_S_CODE) = []"
    by (simp add: exNoCode_def or_empty_def col_defs)
  have h4: "parsesNaN (exNotNumeric COL_S_QTY)"
    by (simp add: exNotNumeric_def col_defs parsesNaN_def infinityLiteral_def pf_defs)
  then have h2: "parsesNaN (exNotNumeric (ToString (Some COL_S_QTY)))"
    by (simp add: ToString_def)
  have h5: "parsesNaN (exNotNumeric COL_S_TOTAL)"
    by (simp add: exNotNumeric_def col_defs parsesNaN_def infinityLiteral_def pf_defs)
  have h6: "exNotNumeric COL_S_TAX_AMT = None"
    by (simp add: exNotNumeric_def col_defs)
  have v1: "get_or0 (groupBySum (data exOpen @ data exPurch) COL_S_CODE (Some COL_S_QTY)) (str ''P1'') = 15"
    by (simp add: groupBySum_def groupBySum_step_def ex_defs col_defs pf_defs or_empty_def or0_def
        get_or0_def)
  have v2: "s_qty (merge_row [] (fst (aggregate_sales (data exSales @ []))) [] (str ''P1'')) = 20"
    by (simp add: ex_aggregate_sales merge_row_def Let_def str_def)
  have v3: "s_total (merge_row [] (fst (aggregate_sales (data exSales @ []))) [] (str ''P1'')) = 1000"
    by (simp add: ex_aggregate_sales merge_row_def Let_def str_def)
  have v4: "s_tax_amt (merge_row [] (fst (aggregate_sales (data exSales @ []))) [] (str ''P1'')) = 90"
    by (simp add: ex_aggregate_sales merge_row_def Let_def str_def)
  from aggregation_tolerance[of exNoCode COL_S_CODE exNotNumeric "Some COL_S_QTY" exNoCode
      "data exOpen" "data exPurch" "str ''P1''" exNotNumeric "[]" "[]" "str ''P1''", OF h1 disjI2[OF h2] h1]
  have a: "groupBySum (data exOpen @ exNoCode # data exPurch) COL_S_CODE (Some COL_S_QTY)
       = groupBySum (data exOpen @ data exPurch) COL_S_CODE (Some COL_S_QTY)"
    and b: "get_or0 (groupBySum (data exOpen @ exNotNumeric # data exPurch) COL_S_CODE (Some COL_S_QTY)) (str ''P1'')
       = get_or0 (groupBySum (data exOpen @ data exPurch) COL_S_CODE (Some COL_S_QTY)) (str ''P1'')"
    by blast+
  from aggregation_tolerance[of exNoCode COL_S_CODE exNotNumeric "Some COL_S_QTY" exNoCode
      "data exSales" "[]" "str ''P1''" exNotNumeric "[]" "[]" "str ''P1''", OF h1 disjI2[OF h2] h1] h4 h5 h6
  have c: "aggregate_sales (data exSales @ exNoCode # []) = aggregate_sales (data exSales @ [])"
    and d: "s_qty (merge_row [] (fst (aggregate_sales (data exSales @ exNotNumeric # []))) [] (str ''P1''))
       = s_qty (merge_row [] (fst (aggregate_sales (data exSales @ []))) [] (str ''P1''))"
    and e: "s_total (merge_row [] (fst (aggregate_sales (data exSales @ exNotNumeric # []))) [] (str ''P1''))
       = s_total (merge_row [] (fst (aggregate_sales (data exSales @ []))) [] (str ''P1''))"
    and f: "s_tax_amt (merge_row [] (fst (aggregate_sales (data exSales @ exNotNumeric # []))) [] (str ''P1''))
       = s_tax_amt (merge_row [] (fst (aggregate_sales (data exSales @ []))) [] (str ''P1''))"
    by blast+
  show ?thesis
    by (intro conjI) (fact h1 h2 h5 h6 a b v1 c d v2 e v3 f v4)+
qed

section \<open>The product codes of the run\<close>

lemma groupBySum_step_keys:
  "fst ` set (groupBySum_step groupCol sumCol result row) =
   fst ` set result \<union> (if or_empty (row groupCol) \<noteq> [] then {or_empty (row groupCol)} else {})"
  by (simp add: groupBySum_step_def Let_def dom_update)

lemma groupBySum_fold_keys:
  "fst ` set (foldl (groupBySum_step groupCol sumCol) result rows) =
   fst ` set result \<union> {k. k \<noteq> [] \<and> (\<exists>row \<in> set rows. or_empty (row groupCol) = k)}"
proof (induction rows arbitrary: result)
  case Nil
  then show ?case by simp
next
  case (Cons row rows)
  show ?case
    unfolding foldl_Cons Cons.IH groupBySum_step_keys by auto
qed

lemma groupBySum_keys:
  "set (map fst (groupBySum rows groupCol sumCol)) =
   {k. k \<noteq> [] \<and> (\<exists>row \<in> set rows. or_empty (row groupCol) = k)}"
  by (simp add: groupBySum_def groupBySum_fold_keys)

lemma sales_codes_set:
  "set (sales_codes rows) = {k. k \<noteq> [] \<and> (\<exists>row \<in> set rows. or_empty (row COL_S_CODE) = k)}"
proof -
  have "set (sales_codes rows) = {k. k \<noteq> [] \<and> (\<exists>row \<in> set rows. row COL_S_CODE = Some k)}"
    by (auto simp: sales_codes_def split: option.splits)
  also have "\<dots> = {k. k \<noteq> [] \<and> (\<exists>row \<in> set rows. or_empty (row COL_S_CODE) = k)}"
  proof -
    have "(k \<noteq> [] \<and> v = Some k) = (k \<noteq> [] \<and> or_empty v = k)" for v k
      by (cases v) (auto simp: or_empty_def)
    then show ?thesis by blast
  qed
  finally show ?thesis .
qed

lemma Set_add_fold:
  "set (foldl Set_add s xs) = set s \<union> set xs \<and> (distinct s \<longrightarrow> distinct (foldl Set_add s xs))"
  by (induction xs arbitrary: s) (auto simp: Set_add_def)

lemma new_Set_set: "set (new_Set xs) = set xs"
  by (simp add: new_Set_def Set_add_fold)

lemma new_Set_distinct: "distinct (new_Set xs)"
  using Set_add_fold[of "[]" xs] by (simp add: new_Set_def)

lemma mergeData_code:
  "map code (mergeData dfOpen dfPurch dfRet dfSales) =
   allCodes_of (groupBySum (data dfOpen) COL_S_CODE (getQtyCol dfOpen))
     (groupBySum (data dfPurch) COL_S_CODE (getQtyCol dfPurch))
     (groupBySum (data dfRet) COL_S_CODE (getQtyCol dfRet)) (data dfSales)"
  by (simp add: mergeData_def Let_def merge_row_def comp_def)

lemma mergeData_codes:
  "set (map code (mergeData dfOpen dfPurch dfRet dfSales)) =
   {c. c \<noteq> [] \<and> (\<exists>row \<in> set (data dfOpen) \<union> set (data dfPurch) \<union> set (data dfRet) \<union> set (data dfSales).
                      or_empty (row COL_S_CODE) = c)}"
  unfolding mergeData_code allCodes_of_def new_Set_set set_append groupBySum_keys sales_codes_set
  by auto

lemma mergeData_distinct: "distinct (map code (mergeData dfOpen dfPurch dfRet dfSales))"
  unfolding mergeData_code allCodes_of_def by (rule new_Set_distinct)

lemma mergeData_empty_iff:
  "mergeData dfOpen dfPurch dfRet dfSales = [] \<longleftrightarrow>
   (\<forall>row \<in> set (data dfOpen) \<union> set (data dfPurch) \<union> set (data dfRet) \<union> set (data dfSales).
      or_empty (row COL_S_CODE) = [])"
proof -
  have "mergeData dfOpen dfPurch dfRet dfSales = [] \<longleftrightarrow>
        set (map code (mergeData dfOpen dfPurch dfRet dfSales)) = {}"
    by simp
  also have "\<dots> \<longleftrightarrow> (\<forall>row \<in> set (data dfOpen) \<union> set (data dfPurch) \<union> set (data dfRet) \<union> set (data dfSales).
      or_empty (row COL_S_CODE) = [])"
    unfolding mergeData_codes by auto
  finally show ?thesis .
qed

section \<open>Codes and length through the passes\<close>

lemma redistribute_fold_map_same:
  assumes "\<And>r q t x. f (r\<lparr>s_qty := q, s_total := t, s_tax_amt := x\<rparr>) = f r"
  shows "map f (foldl redistribute_group xs gs) = map f xs"
proof (induction gs arbitrary: xs)
  case Nil
  then show ?case by simp
next
  case (Cons g gs)
  show ?case
    unfolding foldl_Cons Cons.IH by (rule redistribute_group_map_same) (rule assms)
qed

lemma redistribute_code: "map code (redistribute xs) = map code xs"
  unfolding redistribute_def by (rule redistribute_fold_map_same) simp

lemma redistribute_empty_iff: "redistribute xs = [] \<longleftrightarrow> xs = []"
  using redistribute_code[of xs] by (metis map_is_Nil_conv)

lemma sales_targeting_code:
  assumes "sales_targeting t xs = Inr ys"
  shows "map code ys = map code xs"
proof -
  let ?sc = "sales_scaled t xs"
  have sc: "map code ?sc = map code xs" by (simp add: sales_scaled_def Let_def comp_def)
  have "ys = ?sc \<or> (\<exists>i v. ys = ?sc[i := (?sc ! i)\<lparr>sales_final := v\<rparr>])"
    using assms by (auto simp: sales_targeting_def Let_def modify_at_def split: if_splits)
  then show ?thesis using sc by (auto simp: map_update_same)
qed

lemma tax_targeting_code:
  assumes "tax_targeting t xs = Inr ys"
  shows "map code ys = map code xs"
proof -
  let ?sc = "tax_scaled t xs"
  have sc: "map code ?sc = map code xs" by (simp add: tax_scaled_def Let_def comp_def)
  have "ys = ?sc \<or> (\<exists>i v. ys = ?sc[i := (?sc ! i)\<lparr>tax_final := v\<rparr>])"
    using assms by (auto simp: tax_targeting_def Let_def modify_at_def split: if_splits)
  then show ?thesis using sc by (auto simp: map_update_same)
qed

lemma report_code: "map r_code (map report_of (map set_final_ending xs)) = map code xs"
  by (simp add: report_of_def set_final_ending_def comp_def)

lemma sales_targeting_empty:
  "sales_targeting t [] = (if t \<noteq> 0 then Inl TypeError else Inr [])"
  by (simp add: sales_targeting_def sales_scaled_def reduce_sum_def reduce_maxIdx_def modify_at_def Let_def)

lemma sales_targeting_total: "xs \<noteq> [] \<Longrightarrow> \<exists>ys. sales_targeting t xs = Inr ys"
  using sales_targeting_sum[of xs t] by blast

lemma tax_targeting_total: "\<exists>ys. tax_targeting t xs = Inr ys"
proof (cases "taxableItems xs = []")
  case True
  then show ?thesis by (simp add: tax_targeting_def Let_def)
next
  case False
  then show ?thesis using tax_targeting_sum[of xs t] by blast
qed

lemma processData_codes:
  assumes "processData targetSales targetTax dfOpen dfPurch dfRet dfSales = Inr report"
  shows "map r_code report = map code (mergeData dfOpen dfPurch dfRet dfSales)"
proof -
  let ?m = "mergeData dfOpen dfPurch dfRet dfSales"
  from assms obtain fd1 fd2 where
    1: "sales_targeting targetSales (redistribute ?m) = Inr fd1"
    and 2: "tax_targeting targetTax fd1 = Inr fd2"
    and 3: "report = map report_of (map set_final_ending fd2)"
    by (auto simp: processData_def split: sum.splits)
  show ?thesis
    unfolding 3 report_code tax_targeting_code[OF 2] sales_targeting_code[OF 1] redistribute_code ..
qed

text \<open>
  Claim C6. In every report the run produces, the product codes of the rows are pairwise
  different, and they are exactly the non-empty product codes that occur in a row of the
  opening, purchase, return or sales ledger.
\<close>

theorem report_codes_union:
  assumes "processData targetSales targetTax dfOpen dfPurch dfRet dfSales = Inr report"
  shows "distinct (map r_code report)
     \<and> set (map r_code report) =
         {c. c \<noteq> [] \<and> (\<exists>row \<in> set (data dfOpen) \<union> set (data dfPurch) \<union> set (data dfRet) \<union> set (data dfSales).
                           or_empty (row COL_S_CODE) = c)}"
  unfolding processData_codes[OF assms] using mergeData_codes mergeData_distinct by blast

text \<open>
  Claim C10. When no row of any ledger has a non-empty product code and \<open>targetSales\<close> is not
  zero, the correction of the sales pass reads \<^verbatim>\<open>finalData[0]\<close> of the empty list and the run
  ends with a \<^verbatim>\<open>TypeError\<close> and no report. The tax pass cannot fail in this way: on every
  list it returns.
\<close>

theorem empty_codes_type_error:
  assumes "\<forall>row \<in> set (data dfOpen) \<union> set (data dfPurch) \<union> set (data dfRet) \<union> set (data dfSales).
             or_empty (row COL_S_CODE) = []"
    and "targetSales \<noteq> 0"
  shows "processData targetSales targetTax dfOpen dfPurch dfRet dfSales = Inl TypeError
     \<and> (\<exists>ys. tax_targeting t xs = Inr ys)"
proof -
  have "mergeData dfOpen dfPurch dfRet dfSales = []"
    using assms(1) by (simp only: mergeData_empty_iff)
  then have "redistribute (mergeData dfOpen dfPurch dfRet dfSales) = []"
    by (simp add: redistribute_empty_iff)
  then have "processData targetSales targetTax dfOpen dfPurch dfRet dfSales = Inl TypeError"
    using assms(2) by (simp add: processData_def sales_targeting_empty)
  then show ?thesis using tax_targeting_total by blast
qed

text \<open>
  Claim C5, as amended. No schema is checked. The quantity column of an inventory ledger with
  fewer than two headers, none of them a candidate name, is \<^verbatim>\<open>undefined\<close>, and rows without a
  column of that name then sum to 0 for every product code; an absent cell is read as the
  number 0 or as the empty product code; and the run produces a report whenever some row of
  some ledger has a non-empty product code, whatever columns are absent.
\<close>

theorem no_schema_check:
  assumes "\<exists>row \<in> set (data dfOpen) \<union> set (data dfPurch) \<union> set (data dfRet) \<union> set (data dfSales).
             or_empty (row COL_S_CODE) \<noteq> []"
  shows "(\<exists>report. processData targetSales targetTax dfOpen dfPurch dfRet dfSales = Inr report)
     \<and> (length (headers df) < 2 \<and> (\<forall>h \<in> set (headers df). trim h \<notin> set possible) \<longrightarrow> getQtyCol df = None)
     \<and> ((\<forall>row \<in> set rows. row (ToString None) = None) \<longrightarrow> get_or0 (groupBySum rows COL_S_CODE None) k = 0)
     \<and> or0 (parseFloat None) = 0 \<and> or_empty None = []"
proof -
  have "mergeData dfOpen dfPurch dfRet dfSales \<noteq> []"
    using assms by (simp only: mergeData_empty_iff) blast
  then have "redistribute (mergeData dfOpen dfPurch dfRet dfSales) \<noteq> []"
    by (simp add: redistribute_empty_iff)
  from sales_targeting_total[OF this, of targetSales] obtain fd1 where
    1: "sales_targeting targetSales (redistribute (mergeData dfOpen dfPurch dfRet dfSales)) = Inr fd1" ..
  from tax_targeting_total[of targetTax fd1] obtain fd2 where 2: "tax_targeting targetTax fd1 = Inr fd2" ..
  have a: "\<exists>report. processData targetSales targetTax dfOpen dfPurch dfRet dfSales = Inr report"
    using 1 2 by (simp add: processData_def)
  have find_none: "find (\<lambda>h. trim h = p) hs = None" if "\<forall>h \<in> set hs. trim h \<notin> set ps" "p \<in> set ps" for p ps hs
    using that by (auto simp: find_None_iff)
  have loop: "getQtyCol_loop hs ps = None" if "length hs < 2" "\<forall>h \<in> set hs. trim h \<notin> set (qs @ ps)" for hs ps qs
    using that
  proof (induction ps arbitrary: qs)
    case Nil
    then show ?case by simp
  next
    case (Cons p ps)
    have "find (\<lambda>h. trim h = p) hs = None" using Cons.prems(2) by (auto simp: find_None_iff)
    moreover have "getQtyCol_loop hs ps = None"
      using Cons.IH[of "qs @ [p]"] Cons.prems by simp
    ultimately show ?case by simp
  qed
  have b: "length (headers df) < 2 \<and> (\<forall>h \<in> set (headers df). trim h \<notin> set possible) \<longrightarrow> getQtyCol df = None"
    using loop[where hs = "headers df" and ps = possible and qs = "[]"] by (simp add: getQtyCol_def)
  have c: "(\<forall>row \<in> set rows. row (ToString None) = None) \<longrightarrow> get_or0 (groupBySum rows COL_S_CODE None) k = 0"
  proof
    assume h: "\<forall>row \<in> set rows. row (ToString None) = None"
    have z: "sum_list (map (\<lambda>row. or0 (parseFloat (row (ToString None)))) xs) = 0"
      if "\<forall>row \<in> set xs. row (ToString None) = None" for xs :: "row list"
      using that by (induction xs) (simp_all add: parseFloat_undefined or0_def)
    show "get_or0 (groupBySum rows COL_S_CODE None) k = 0"
      unfolding groupBySum_sum using h by (intro z) simp
  qed
  show ?thesis using a b c by (simp add: parseFloat_undefined or0_def or_empty_def)
qed

lemmas merge_defs = mergeData_def allCodes_of_def new_Set_def Set_add_def build_inventory_def
  inventory_entry_def merge_row_def get_or0_def groupBySum_def groupBySum_step_def
  aggregate_sales_def sales_step_def sales_codes_def getQtyCol_def possible_def trim_def
  or_empty_def or0_def pf_defs col_defs sales_row_def inventory_row_def

lemmas targeting_defs = sales_targeting_def sales_scaled_def tax_targeting_def tax_scaled_def
  taxableItems_def reduce_sum_def reduce_maxIdx_def modify_at_def Let_def
  upt_rec[of 0] upt_rec[of 1] upt_rec[of 2]

section \<open>Evaluation of the runs on the examples\<close>

lemma ex_sales_targeting:
  "sales_targeting 900 exRedistributed = Inr (map (\<lambda>r. r\<lparr>sales_final := 450\<rparr>) exRedistributed)"
  by (simp add: exRedistributed_def targeting_defs)

lemma ex_tax_targeting:
  "tax_targeting 100 (map (\<lambda>r. r\<lparr>sales_final := 450\<rparr>) exRedistributed)
     = Inr (map (\<lambda>r. r\<lparr>sales_final := 450, tax_final := 50\<rparr>) exRedistributed)"
  by (simp add: exRedistributed_def targeting_defs)

lemma ex_processData: "processData 900 100 exOpen exPurch exRet exSales = Inr exReport"
  unfolding processData_def ex_mergeData ex_redistribute ex_sales_targeting
  by (simp add: ex_tax_targeting) (simp add: exRedistributed_def exReport_def report_of_def set_final_ending_def)

theorem report_codes_union_witness:
  "processData 900 100 exOpen exPurch exRet exSales = Inr exReport
   \<and> distinct (map r_code exReport)
   \<and> set (map r_code exReport) =
       {c. c \<noteq> [] \<and> (\<exists>row \<in> set (data exOpen) \<union> set (data exPurch) \<union> set (data exRet) \<union> set (data exSales).
                         or_empty (row COL_S_CODE) = c)}
   \<and> map r_code exReport = [str ''P1'', str ''P2'']"
proof -
  have v: "map r_code exReport = [str ''P1'', str ''P2'']" by (simp add: exReport_def)
  from report_codes_union[OF ex_processData] ex_processData v show ?thesis by blast
qed

lemma exNoCodes_rows:
  "\<forall>row \<in> set (data exNoCodes) \<union> set (data exNoCodes) \<union> set (data exNoCodes) \<union> set (data exNoCodes).
     or_empty (row COL_S_CODE) = []"
  by (simp add: exNoCodes_def or_empty_def col_defs)

theorem empty_codes_type_error_witness:
  "processData 1 0 exNoCodes exNoCodes exNoCodes exNoCodes = Inl TypeError
   \<and> (\<exists>ys. tax_targeting 0 [] = Inr ys)"
proof -
  have h2: "(1::rat) \<noteq> 0" by simp
  from empty_codes_type_error[OF exNoCodes_rows h2, of 0 0 "[]"] show ?thesis .
qed

lemma exOneColumn_getQtyCol: "getQtyCol exOneColumn = None"
  by (simp add: exOneColumn_def getQtyCol_def possible_def trim_def isWhiteSpace_def col_defs)

lemma exNoTax_mergeData:
  "mergeData exOneColumn exRet exRet exSalesNoTax =
     [\<lparr>code = str ''P1'', q_open = 0, q_purch = 0, q_ret = 0, available = 0,
       s_qty = 2, s_total = 100, s_tax_amt = 0, s_tax_pct = 9,
       ending = - 2, sales_final = 0, tax_final = 0, final_ending = 0\<rparr>]"
  by (simp add: exOneColumn_def exRet_def exSalesNoTax_def merge_defs)

text \<open>
  An opening ledger with the single column of product codes and a sales ledger without the
  column of tax amounts: the quantity column resolves to \<^verbatim>\<open>undefined\<close>, the absent cells count
  as 0, and the run produces its report.
\<close>

theorem no_schema_check_counterexample:
  "getQtyCol exOneColumn = None
   \<and> (data exSalesNoTax ! 0) COL_S_TAX_AMT = None
   \<and> processData 100 5 exOneColumn exRet exRet exSalesNoTax =
       Inr [\<lparr>r_code = str ''P1'', r_open = 0, r_purch = 0, r_ret = 0, r_qty = 2,
             r_sales = 100, r_tax = 5, r_ending = - 2\<rparr>]"
proof -
  have a: "(data exSalesNoTax ! 0) COL_S_TAX_AMT = None"
    by (simp add: exSalesNoTax_def col_defs)
  have b: "processData 100 5 exOneColumn exRet exRet exSalesNoTax =
       Inr [\<lparr>r_code = str ''P1'', r_open = 0, r_purch = 0, r_ret = 0, r_qty = 2,
             r_sales = 100, r_tax = 5, r_ending = - 2\<rparr>]"
    unfolding processData_def exNoTax_mergeData
    by (simp add: redistribute_defs targeting_defs report_of_def set_final_ending_def)
  from exOneColumn_getQtyCol a b show ?thesis by blast
qed

theorem no_schema_check_witness:
  "(\<exists>report. processData 100 5 exOneColumn exRet exRet exSalesNoTax = Inr report)
   \<and> getQtyCol exOneColumn = None
   \<and> get_or0 (groupBySum (data exOneColumn) COL_S_CODE None) (str ''P1'') = 0"
proof -
  have h: "\<exists>row \<in> set (data exOneColumn) \<union> set (data exRet) \<union> set (data exRet) \<union> set (data exSalesNoTax).
             or_empty (row COL_S_CODE) \<noteq> []"
    by (simp add: exOneColumn_def or_empty_def str_def)
  have g: "length (headers exOneColumn) < 2 \<and> (\<forall>h \<in> set (headers exOneColumn). trim h \<notin> set possible)"
    by (simp add: exOneColumn_def possible_def trim_def isWhiteSpace_def col_defs)
  have u: "\<forall>row \<in> set (data exOneColumn). row (ToString None) = None"
    by (simp add: exOneColumn_def ToString_def str_def col_defs)
  from no_schema_check[OF h, of 100 5 exOneColumn "data exOneColumn" "str ''P1''"] g u
  show ?thesis by blast
qed

section \<open>Where the correction of the tax pass lands\<close>

lemma zip_upt_map: "zip xs [0..<length xs] = map (\<lambda>i. (xs ! i, i)) [0..<length xs]"
  by (rule nth_equalityI) simp_all

lemma reduce_maxIdx_upt:
  "reduce_maxIdx f arr =
   foldl (\<lambda>maxIdx i. if f (arr ! i) > f (arr ! maxIdx) then i else maxIdx) 0 [0..<length arr]"
  unfolding reduce_maxIdx_def zip_upt_map by (simp add: foldl_map cong: if_cong)

lemma maxIdx_prefix:
  "k \<le> length arr \<Longrightarrow>
   (\<forall>j<k. f (arr ! j) \<le> f (arr ! foldl (\<lambda>maxIdx i. if f (arr ! i) > f (arr ! maxIdx) then i else maxIdx) 0 [0..<k]))"
  for f :: "item \<Rightarrow> rat"
proof (induction k)
  case 0
  then show ?case by simp
next
  case (Suc k)
  let ?m = "foldl (\<lambda>maxIdx i. if f (arr ! i) > f (arr ! maxIdx) then i else maxIdx) 0 [0..<k]"
  from Suc have ih: "\<forall>j<k. f (arr ! j) \<le> f (arr ! ?m)" by simp
  show ?case
  proof (intro allI impI)
    fix j assume "j < Suc k"
    then consider "j < k" | "j = k" by linarith
    then show "f (arr ! j) \<le> f (arr ! foldl (\<lambda>maxIdx i. if f (arr ! i) > f (arr ! maxIdx) then i else maxIdx) 0 [0..<Suc k])"
    proof cases
      case 1
      with ih have "f (arr ! j) \<le> f (arr ! ?m)" by simp
      then show ?thesis by auto
    next
      case 2
      then show ?thesis by auto
    qed
  qed
qed

lemma reduce_maxIdx_max: "j < length arr \<Longrightarrow> f (arr ! j) \<le> f (arr ! reduce_maxIdx f arr)"
  for f :: "item \<Rightarrow> rat"
  unfolding reduce_maxIdx_upt using maxIdx_prefix[of "length arr" arr f] by simp

lemma tax_scaled_zero_rate:
  "i < length xs \<Longrightarrow> \<not> s_tax_pct (xs ! i) > 0 \<Longrightarrow> tax_final (tax_scaled t xs ! i) = 0"
  by (simp add: tax_scaled_def Let_def)

text \<open>
  When some record has a scaled tax above 0, the correction goes to a taxable record and
  every record with rate 0 keeps the tax of 0 that the scaling gave it.
\<close>

lemma zero_rate_kept_when_some_tax_positive:
  assumes res: "tax_targeting t xs = Inr ys"
    and pos: "\<exists>j<length xs. tax_final (tax_scaled t xs ! j) > 0"
    and i: "i < length xs" and zero: "\<not> s_tax_pct (xs ! i) > 0"
  shows "tax_final (ys ! i) = 0"
proof -
  let ?sc = "tax_scaled t xs"
  let ?m = "reduce_maxIdx tax_final ?sc"
  have len: "length ?sc = length xs" by (simp add: tax_scaled_length)
  from pos obtain j where j: "j < length xs" "tax_final (?sc ! j) > 0" by blast
  have "tax_final (?sc ! j) \<le> tax_final (?sc ! ?m)"
    using j(1) len by (intro reduce_maxIdx_max) simp
  with j(2) have mpos: "tax_final (?sc ! ?m) > 0" by simp
  have "?m \<noteq> i" using mpos tax_scaled_zero_rate[OF i zero, of t] by auto
  moreover have "ys = ?sc \<or> (\<exists>v. ys = ?sc[?m := (?sc ! ?m)\<lparr>tax_final := v\<rparr>])"
    using res by (auto simp: tax_targeting_def Let_def modify_at_def split: if_splits)
  ultimately show ?thesis using tax_scaled_zero_rate[OF i zero, of t] by auto
qed

lemma exRate_mergeData:
  "mergeData exRet exRet exRet exRateSales =
     [\<lparr>code = str ''A'', q_open = 0, q_purch = 0, q_ret = 0, available = 0,
       s_qty = 1, s_total = 100, s_tax_amt = 0, s_tax_pct = 0,
       ending = - 1, sales_final = 0, tax_final = 0, final_ending = 0\<rparr>,
      \<lparr>code = str ''B'', q_open = 0, q_purch = 0, q_ret = 0, available = 0,
       s_qty = 1, s_total = 100, s_tax_amt = 0, s_tax_pct = 9,
       ending = - 1, sales_final = 0, tax_final = 0, final_ending = 0\<rparr>]"
  by (simp add: exRet_def exRateSales_def merge_defs)

text \<open>
  Claim C4. The claim is that a record with tax rate 0 always ends with a balanced tax amount
  of 0. The correction of the tax pass goes to the first largest scaled tax among all records
  (line 261 reduces over \<^verbatim>\<open>finalData\<close>), so when no taxable record has a scaled tax above 0 a
  record with rate 0 that comes first receives it: below product A, sold at rate 0, is
  reported with the whole target of 5 as its tax.
\<close>

theorem zero_rate_receives_correction:
  "map s_tax_pct (mergeData exRet exRet exRet exRateSales) = [0, 9]
   \<and> processData 200 5 exRet exRet exRet exRateSales =
       Inr [\<lparr>r_code = str ''A'', r_open = 0, r_purch = 0, r_ret = 0, r_qty = 1,
             r_sales = 100, r_tax = 5, r_ending = - 1\<rparr>,
            \<lparr>r_code = str ''B'', r_open = 0, r_purch = 0, r_ret = 0, r_qty = 1,
             r_sales = 100, r_tax = 0, r_ending = - 1\<rparr>]"
  unfolding processData_def exRate_mergeData
  by (simp add: redistribute_defs targeting_defs report_of_def set_final_ending_def)

section \<open>Rounding to binary64\<close>

lemma floor_numeral_div: "\<lfloor>numeral a / numeral b :: rat\<rfloor> = numeral a div numeral b"
  using floor_divide_of_int_eq[of "numeral a" "numeral b", where ?'a = rat] by simp

lemma floor_neg_numeral_div: "\<lfloor>- (numeral a / numeral b) :: rat\<rfloor> = (- numeral a) div numeral b"
  using floor_divide_of_int_eq[of "- numeral a" "numeral b", where ?'a = rat] by simp

lemma ceiling_numeral_div: "\<lceil>numeral a / numeral b :: rat\<rceil> = - ((- numeral a) div numeral b)"
  unfolding ceiling_def floor_neg_numeral_div ..

lemma floor_one_div: "\<lfloor>1 / numeral b :: rat\<rfloor> = 1 div numeral b"
  using floor_divide_of_int_eq[of 1 "numeral b", where ?'a = rat] by simp

lemma floor_neg_one_div: "\<lfloor>- (1 / numeral b) :: rat\<rfloor> = (- 1) div numeral b"
  using floor_divide_of_int_eq[of "- 1" "numeral b", where ?'a = rat] by simp

lemma ceiling_one_div: "\<lceil>1 / numeral b :: rat\<rceil> = - ((- 1) div numeral b)"
  unfolding ceiling_def floor_neg_one_div ..

lemmas fl_eval = fl_def ilog2_def round_even_def bit_length.simps Let_def pow2_def
  floor_numeral_div floor_neg_numeral_div ceiling_numeral_div
  floor_one_div floor_neg_one_div ceiling_one_div

section \<open>Powers of two\<close>

lemma pow2_powi: "pow2 e = 2 powi e"
  by (simp add: pow2_def power_int_def inverse_eq_divide power_one_over)

lemma pow2_pos: "0 < pow2 e"
  by (simp add: pow2_powi)

lemma pow2_add: "pow2 (a + b) = pow2 a * pow2 b"
  by (simp add: pow2_powi power_int_add)

lemma pow2_diff: "pow2 (a - b) = pow2 a / pow2 b"
  by (simp add: pow2_powi power_int_diff)

lemma pow2_mono: "a \<le> b \<Longrightarrow> pow2 a \<le> pow2 b"
  by (simp add: pow2_powi power_int_increasing)

lemma pow2_strict_mono: "a < b \<Longrightarrow> pow2 a < pow2 b"
  by (simp add: pow2_powi power_int_strict_increasing)

lemma pow2_less_iff: "pow2 a < pow2 b \<longleftrightarrow> a < b"
  using pow2_strict_mono pow2_mono by (metis linorder_not_less)

lemma pow2_nat: "pow2 (int n) = 2 ^ n"
  by (simp add: pow2_def)

lemma pow2_neg_nat: "pow2 (- int n) = 1 / 2 ^ n"
  by (cases n) (simp_all add: pow2_def nat_add_distrib)

lemma pow2_int: "0 \<le> e \<Longrightarrow> pow2 e = of_int (2 ^ nat e)"
  by (simp add: pow2_def)

section \<open>The binary logarithm\<close>

lemma bit_length_upper: "n < 2 ^ bit_length n"
proof (induction n rule: bit_length.induct)
  case (1 n)
  show ?case
  proof (cases "n = 0")
    case True
    then show ?thesis by (simp add: bit_length.simps)
  next
    case False
    with 1 have "n div 2 < 2 ^ bit_length (n div 2)" by simp
    then have "n < 2 * 2 ^ bit_length (n div 2)" by linarith
    with False show ?thesis by (simp add: bit_length.simps[of n])
  qed
qed

lemma bit_length_lower: "0 < n \<Longrightarrow> 2 ^ (bit_length n - 1) \<le> n"
proof (induction n rule: bit_length.induct)
  case (1 n)
  then have n: "n \<noteq> 0" by simp
  show ?case
  proof (cases "n div 2 = 0")
    case True
    with n have "n = 1" by linarith
    then show ?thesis by (simp add: bit_length.simps)
  next
    case False
    with 1 n have ih: "2 ^ (bit_length (n div 2) - 1) \<le> n div 2" by simp
    have pos: "0 < bit_length (n div 2)" using False by (simp add: bit_length.simps[of "n div 2"])
    have "bit_length n - 1 = Suc (bit_length (n div 2) - 1)"
      using n pos by (simp add: bit_length.simps[of n])
    then have "(2::nat) ^ (bit_length n - 1) = 2 * 2 ^ (bit_length (n div 2) - 1)" by simp
    also have "\<dots> \<le> 2 * (n div 2)" using ih by simp
    also have "\<dots> \<le> n" by simp
    finally show ?thesis .
  qed
qed

lemma bit_length_pos: "0 < n \<Longrightarrow> 0 < bit_length n"
  by (simp add: bit_length.simps[of n])

lemma floor_nat_bounds: "1 \<le> a \<Longrightarrow> of_nat (nat \<lfloor>a\<rfloor>) \<le> a \<and> a < of_nat (nat \<lfloor>a\<rfloor>) + 1 \<and> 0 < nat \<lfloor>a\<rfloor>"
  for a :: rat
  by linarith

lemma ceiling_nat_bounds:
  "1 < y \<Longrightarrow> of_nat (nat (\<lceil>y\<rceil> - 1)) < y \<and> y \<le> of_nat (nat (\<lceil>y\<rceil> - 1)) + 1 \<and> 0 < nat (\<lceil>y\<rceil> - 1)"
  for y :: rat
  by linarith

lemma nat_pow_bounds:
  assumes "0 < n"
  shows "(2::rat) ^ (bit_length n - 1) \<le> of_nat n \<and> (of_nat n :: rat) + 1 \<le> 2 ^ bit_length n"
proof -
  have "(of_nat (2 ^ (bit_length n - 1)) :: rat) \<le> of_nat n"
    using bit_length_lower[OF assms] of_nat_le_iff by blast
  moreover have "n + 1 \<le> 2 ^ bit_length n" using bit_length_upper[of n] by simp
  then have "(of_nat (n + 1) :: rat) \<le> of_nat (2 ^ bit_length n)" using of_nat_le_iff by blast
  ultimately show ?thesis by simp
qed

lemma ilog2_bounds:
  assumes "x \<noteq> 0"
  shows "pow2 (ilog2 x) \<le> \<bar>x\<bar> \<and> \<bar>x\<bar> < pow2 (ilog2 x + 1)"
proof (cases "1 \<le> \<bar>x\<bar>")
  case True
  let ?n = "nat \<lfloor>\<bar>x\<bar>\<rfloor>"
  from floor_nat_bounds[OF True] have n: "0 < ?n" and b: "of_nat ?n \<le> \<bar>x\<bar>" "\<bar>x\<bar> < of_nat ?n + 1"
    by simp_all
  have k: "0 < bit_length ?n" using bit_length_pos[OF n] .
  have e: "ilog2 x = int (bit_length ?n - 1)" "ilog2 x + 1 = int (bit_length ?n)"
    using True k by (simp_all add: ilog2_def)
  have p1: "pow2 (ilog2 x) = 2 ^ (bit_length ?n - 1)" by (simp only: e(1) pow2_nat)
  have p2: "pow2 (ilog2 x + 1) = 2 ^ bit_length ?n" by (simp only: e(2) pow2_nat)
  show ?thesis
    unfolding p1 p2 using nat_pow_bounds[OF n] b by linarith
next
  case False
  let ?y = "1 / \<bar>x\<bar>"
  let ?c = "nat (\<lceil>?y\<rceil> - 1)"
  have ax: "0 < \<bar>x\<bar>" "\<bar>x\<bar> < 1" using assms False by simp_all
  then have y1: "1 < ?y" by simp
  from ceiling_nat_bounds[OF y1] have c: "0 < ?c" and b: "of_nat ?c < ?y" "?y \<le> of_nat ?c + 1"
    by simp_all
  let ?k = "bit_length ?c"
  have k: "0 < ?k" using bit_length_pos[OF c] .
  have e: "ilog2 x = - int ?k" using False by (simp add: ilog2_def)
  have p1: "pow2 (ilog2 x) = 1 / 2 ^ ?k" unfolding e by (rule pow2_neg_nat)
  have p2: "pow2 (ilog2 x + 1) = 1 / 2 ^ (?k - 1)"
  proof -
    have "ilog2 x + 1 = - int (?k - 1)" using e k by simp
    then show ?thesis by (simp only: pow2_neg_nat)
  qed
  from nat_pow_bounds[OF c] b have y: "2 ^ (?k - 1) < ?y" "?y \<le> 2 ^ ?k" by linarith+
  have lo: "1 / 2 ^ ?k \<le> \<bar>x\<bar>"
  proof -
    have "1 \<le> 2 ^ ?k * \<bar>x\<bar>" using y(2) ax(1) by (simp add: field_simps)
    then show ?thesis by (simp add: field_simps)
  qed
  have hi: "\<bar>x\<bar> < 1 / 2 ^ (?k - 1)"
  proof -
    have "2 ^ (?k - 1) * \<bar>x\<bar> < 1" using y(1) ax(1) by (simp add: field_simps)
    then show ?thesis by (simp add: field_simps)
  qed
  show ?thesis unfolding p1 p2 using lo hi by simp
qed

lemma ilog2_unique:
  assumes "pow2 e \<le> \<bar>x\<bar>" "\<bar>x\<bar> < pow2 (e + 1)"
  shows "ilog2 x = e"
proof -
  have nz: "x \<noteq> 0" using assms(1) pow2_pos[of e] by auto
  from ilog2_bounds[OF nz] have b: "pow2 (ilog2 x) \<le> \<bar>x\<bar>" "\<bar>x\<bar> < pow2 (ilog2 x + 1)" by simp_all
  have "pow2 (ilog2 x) < pow2 (e + 1)" using b(1) assms(2) by simp
  then have "ilog2 x < e + 1" by (simp add: pow2_less_iff)
  moreover have "pow2 e < pow2 (ilog2 x + 1)" using b(2) assms(1) by simp
  then have "e < ilog2 x + 1" by (simp add: pow2_less_iff)
  ultimately show ?thesis by simp
qed

lemma ilog2_scale:
  assumes "x \<noteq> 0"
  shows "ilog2 (x * pow2 k) = ilog2 x + k"
proof (rule ilog2_unique)
  from ilog2_bounds[OF assms] have b: "pow2 (ilog2 x) \<le> \<bar>x\<bar>" "\<bar>x\<bar> < pow2 (ilog2 x + 1)" by simp_all
  have a: "\<bar>x * pow2 k\<bar> = \<bar>x\<bar> * pow2 k" using pow2_pos[of k] by (simp add: abs_mult)
  show "pow2 (ilog2 x + k) \<le> \<bar>x * pow2 k\<bar>"
    unfolding a pow2_add using b(1) pow2_pos[of k] by simp
  have "ilog2 x + k + 1 = (ilog2 x + 1) + k" by simp
  then have eq: "pow2 (ilog2 x + k + 1) = pow2 (ilog2 x + 1) * pow2 k"
    by (simp only: pow2_add)
  show "\<bar>x * pow2 k\<bar> < pow2 (ilog2 x + k + 1)"
    unfolding a eq using b(2) pow2_pos[of k] by (rule mult_strict_right_mono)
qed

section \<open>Values that rounding leaves alone\<close>

lemma round_even_int: "round_even (of_int k) = k"
  by (simp add: round_even_def)




lemma fl_exact:
  assumes "x \<noteq> 0" and "x / pow2 (max (ilog2 x - 52) (- 1074)) = of_int k"
  shows "fl x = x"
proof -
  let ?q = "max (ilog2 x - 52) (- 1074)"
  have "x = of_int k * pow2 ?q" using assms(2) pow2_pos[of ?q] by (simp add: field_simps)
  moreover have "fl x = of_int k * pow2 ?q"
    using assms by (simp add: fl_def Let_def round_even_int)
  ultimately show ?thesis by simp
qed

lemma ilog2_of_int:
  assumes "m \<noteq> 0" "\<bar>m\<bar> \<le> 2 ^ 53"
  shows "0 \<le> ilog2 (of_int m) \<and> ilog2 (of_int m) \<le> 53
     \<and> (ilog2 (of_int m) = 53 \<longrightarrow> \<bar>m\<bar> = 2 ^ 53)"
proof -
  let ?x = "of_int m :: rat"
  have nz: "?x \<noteq> 0" using assms(1) by simp
  from ilog2_bounds[OF nz] have b: "pow2 (ilog2 ?x) \<le> \<bar>?x\<bar>" "\<bar>?x\<bar> < pow2 (ilog2 ?x + 1)" by simp_all
  have "1 \<le> \<bar>m\<bar>" using assms(1) by simp
  then have "(of_int 1 :: rat) \<le> of_int \<bar>m\<bar>" by (simp only: of_int_le_iff)
  then have one: "1 \<le> \<bar>?x\<bar>" by simp
  have "(of_int \<bar>m\<bar> :: rat) \<le> of_int (2 ^ 53)" using assms(2) by (simp only: of_int_le_iff)
  then have up: "\<bar>?x\<bar> \<le> pow2 53" by (simp add: pow2_def)
  have "pow2 0 < pow2 (ilog2 ?x + 1)" using one b(2) by (simp add: pow2_def)
  then have lo: "0 \<le> ilog2 ?x" by (simp add: pow2_less_iff)
  have "\<not> pow2 53 < pow2 (ilog2 ?x)" using b(1) up by simp
  then have hi: "ilog2 ?x \<le> 53" by (simp add: pow2_less_iff)
  have "\<bar>m\<bar> = 2 ^ 53" if "ilog2 ?x = 53"
  proof -
    have "pow2 53 \<le> \<bar>?x\<bar>" using b(1) that by simp
    with up have "\<bar>?x\<bar> = pow2 53" by simp
    then have "(of_int \<bar>m\<bar> :: rat) = of_int (2 ^ 53)" by (simp add: pow2_def)
    then show ?thesis using of_int_eq_iff by blast
  qed
  with lo hi show ?thesis by simp
qed

lemma fl_representable:
  assumes m: "\<bar>m\<bar> \<le> 2 ^ 53" and q: "- 1074 \<le> q"
  shows "fl (of_int m * pow2 q) = of_int m * pow2 q"
proof (cases "m = 0")
  case True
  then show ?thesis by (simp add: fl_def)
next
  case False
  let ?y = "of_int m * pow2 q"
  let ?em = "ilog2 (of_int m :: rat)"
  have nz: "?y \<noteq> 0" using False pow2_pos[of q] by simp
  have ey: "ilog2 ?y = ?em + q" using False by (simp add: ilog2_scale)
  from ilog2_of_int[OF False m] have em: "0 \<le> ?em" "?em \<le> 53" "?em = 53 \<Longrightarrow> \<bar>m\<bar> = 2 ^ 53"
    by simp_all
  let ?qy = "max (ilog2 ?y - 52) (- 1074)"
  show ?thesis
  proof (cases "?em = 53")
    case True
    then have qy: "?qy = q + 1" using ey q by simp
    from em(3)[OF True] have "m = 2 ^ 53 \<or> m = - (2 ^ 53)" by linarith
    then have ev: "of_int m = (of_int (m div 2) :: rat) * 2" by auto
    have "?y / pow2 ?qy = of_int (m div 2)"
      unfolding qy pow2_add using ev pow2_pos[of q] by (simp add: pow2_def)
    then show ?thesis using nz by (rule fl_exact[rotated])
  next
    case False
    with em have "?em \<le> 52" by simp
    then have le: "?qy \<le> q" using ey q by simp
    then have d: "0 \<le> q - ?qy" by simp
    have "?y / pow2 ?qy = of_int m * pow2 (q - ?qy)" by (simp add: pow2_diff)
    also have "\<dots> = of_int (m * 2 ^ nat (q - ?qy))" using d by (simp add: pow2_int)
    finally show ?thesis using nz by (rule fl_exact[rotated])
  qed
qed

lemma fl_int: "\<bar>n\<bar> \<le> 2 ^ 53 \<Longrightarrow> fl (of_int n) = of_int n"
  using fl_representable[of n 0] by (simp add: pow2_def)


text \<open>The rounded value is a nearest one: it is off by at most half the spacing.\<close>

lemma round_even_near: "\<bar>of_int (round_even z) - z\<bar> \<le> 1 / 2"
proof -
  have "of_int \<lfloor>z\<rfloor> \<le> z" "z < of_int \<lfloor>z\<rfloor> + 1" by linarith+
  then show ?thesis by (auto simp: round_even_def Let_def)
qed

lemma fl_near:
  assumes "x \<noteq> 0"
  shows "\<bar>fl x - x\<bar> \<le> pow2 (max (ilog2 x - 52) (- 1074)) / 2"
proof -
  let ?q = "max (ilog2 x - 52) (- 1074)"
  let ?z = "x / pow2 ?q"
  have p: "0 < pow2 ?q" by (rule pow2_pos)
  have "fl x - x = (of_int (round_even ?z) - ?z) * pow2 ?q"
    using assms p by (simp add: fl_def Let_def field_simps)
  then have "\<bar>fl x - x\<bar> = \<bar>of_int (round_even ?z) - ?z\<bar> * pow2 ?q"
    using p by (simp add: abs_mult)
  also have "\<dots> \<le> 1 / 2 * pow2 ?q"
    using round_even_near[of ?z] p by (intro mult_right_mono) simp_all
  finally show ?thesis by simp
qed

section \<open>Evaluation in binary64\<close>

lemmas d64_defs = rnd_def sub64_def gt64_def seq64_def min64_def reduce_sum64_def sold64_def

lemmas t64_defs = sales_targeting64_def sales_scaled64_def tax_targeting64_def tax_scaled64_def
  taxableItems64_def reduce_maxIdx64_def modify_at64_def targeting64_def



text \<open>
  The values of the literals \<^verbatim>\<open>0.1\<close> and \<^verbatim>\<open>2.1\<close> and of \<^verbatim>\<open>1 / 3\<close>, two ties at \<open>2 ^ 53\<close>,
  a subnormal tie, and the largest finite value with the first value that overflows.
\<close>

lemma fl_examples:
  "fl (1 / 10) = 3602879701896397 / 2 ^ 55"
  "fl (1 / 3) = 6004799503160661 / 2 ^ 54"
  "fl (21 / 10) = 4728779608739021 / 2 ^ 51"
  "fl (2 ^ 53 + 1) = 2 ^ 53"
  "fl (2 ^ 53 + 3) = 2 ^ 53 + 4"
  "fl (- (7 / 2) / 2 ^ 1074) = - 4 / 2 ^ 1074"
  "fl (1 / 2 ^ 1075) = 0"
  by (simp_all add: fl_eval)

lemma rnd_examples:
  "rnd (2 ^ 1024 - 2 ^ 970) = PInf"
  "rnd (2 ^ 1024 - 2 ^ 971) = Fin (2 ^ 1024 - 2 ^ 971)"
  by (simp_all add: rnd_def fl_eval)

section \<open>Sums of integers in binary64\<close>

lemma rnd_Fin: "fl x = x \<Longrightarrow> \<bar>x\<bar> < 2 ^ 1024 \<Longrightarrow> rnd x = Fin x"
  unfolding rnd_def Let_def by (simp only: abs_less_iff) (simp add: not_le)

lemma rnd_Ints:
  assumes "x \<in> \<int>" "\<bar>x\<bar> \<le> 2 ^ 53"
  shows "rnd x = Fin x"
proof -
  from assms(1) obtain n where n: "x = of_int n" by (rule Ints_cases)
  have "(of_int \<bar>n\<bar> :: rat) \<le> of_int (2 ^ 53)" using assms(2) n by simp
  then have "\<bar>n\<bar> \<le> 2 ^ 53" by (simp only: of_int_le_iff)
  then have f: "fl x = x" unfolding n by (rule fl_int)
  have "(2 :: rat) ^ 53 < 2 ^ 1024" by (rule power_strict_increasing) simp_all
  with assms(2) have "\<bar>x\<bar> < 2 ^ 1024" by linarith
  with f show ?thesis by (rule rnd_Fin)
qed

lemma reduce_sum64_map: "reduce_sum64 f arr = foldl add64 (Fin 0) (map f arr)"
  by (simp add: reduce_sum64_def foldl_map)

lemma sum_ints_exact:
  assumes "a \<in> \<int>" "\<forall>v \<in> set vs. v \<in> \<int>" "\<bar>a\<bar> + sum_list (map abs vs) \<le> 2 ^ 53"
  shows "foldl add64 (Fin a) (map Fin vs) = Fin (a + sum_list vs)"
  using assms
proof (induction vs arbitrary: a)
  case Nil
  then show ?case by simp
next
  case (Cons v vs)
  have i: "a + v \<in> \<int>" using Cons.prems by simp
  have b: "\<bar>a + v\<bar> + sum_list (map abs vs) \<le> 2 ^ 53" using Cons.prems(3) by simp
  have "0 \<le> sum_list (map abs vs)" by (rule sum_list_nonneg) auto
  with b have "\<bar>a + v\<bar> \<le> 2 ^ 53" by linarith
  with i have "rnd (a + v) = Fin (a + v)" by (rule rnd_Ints)
  then show ?case using Cons.IH[OF i _ b] Cons.prems(2) by (simp add: add.assoc)
qed

lemma abs_sum_Some:
  "abs_sum ds = Some B \<Longrightarrow> \<exists>vs. ds = map Fin vs \<and> B = sum_list (map abs vs)"
proof (induction ds arbitrary: B rule: abs_sum.induct)
  case 1
  then show ?case by simp
next
  case (2 x ds)
  then obtain s where s: "abs_sum ds = Some s" "B = \<bar>x\<bar> + s" by auto
  from 2(1)[OF s(1)] obtain vs where "ds = map Fin vs" "s = sum_list (map abs vs)" by blast
  then have "Fin x # ds = map Fin (x # vs) \<and> B = sum_list (map abs (x # vs))" using s(2) by simp
  then show ?case by (rule exI[of _ "x # vs"])
qed simp_all

lemma fin_sum_map: "fin_sum (map Fin vs) = Some (sum_list vs)"
  by (induction vs) simp_all

lemma floor64_Ints: "floor64 d = Fin v \<Longrightarrow> v \<in> \<int>"
  by (cases d) auto

text \<open>The correction of a pass on the values of its records.\<close>

lemma correction_exact:
  assumes vs: "\<forall>v \<in> set vs. v \<in> \<int>" and t: "t \<in> \<int>"
    and b: "\<bar>t\<bar> + sum_list (map abs vs) \<le> 2 ^ 53"
  shows "foldl add64 (Fin 0) (map Fin vs) = Fin (sum_list vs)"
    and "sub64 (Fin t) (Fin (sum_list vs)) = Fin (t - sum_list vs)"
    and "m < length vs \<Longrightarrow> add64 (Fin (vs ! m)) (Fin (t - sum_list vs)) = Fin (vs ! m + (t - sum_list vs))"
proof -
  have nn: "0 \<le> sum_list (map abs vs)" by (rule sum_list_nonneg) auto
  have S: "sum_list vs \<in> \<int>" using vs by (induction vs) simp_all
  have aS: "\<bar>sum_list vs\<bar> \<le> sum_list (map abs vs)" by (rule sum_list_abs)
  show "foldl add64 (Fin 0) (map Fin vs) = Fin (sum_list vs)"
    using sum_ints_exact[of 0 vs] vs b by simp
  have "\<bar>t - sum_list vs\<bar> \<le> 2 ^ 53" using aS b by linarith
  moreover have "t - sum_list vs \<in> \<int>" using t S by simp
  ultimately have "rnd (t - sum_list vs) = Fin (t - sum_list vs)" by (rule rnd_Ints[rotated])
  then show "sub64 (Fin t) (Fin (sum_list vs)) = Fin (t - sum_list vs)" by (simp add: sub64_def)
  show "add64 (Fin (vs ! m)) (Fin (t - sum_list vs)) = Fin (vs ! m + (t - sum_list vs))" if m: "m < length vs"
  proof -
    have e: "sum_list (vs[m := 0]) = sum_list vs - vs ! m"
      using sum_list_map_update[OF m, of "\<lambda>x. x" 0] by simp
    have "sum_list (map abs (vs[m := 0])) = sum_list (map abs vs) - \<bar>vs ! m\<bar>"
      using sum_list_map_update[OF m, of abs 0] by simp
    then have "\<bar>sum_list (vs[m := 0])\<bar> \<le> sum_list (map abs vs)"
      using sum_list_abs[of "vs[m := 0]"] by linarith
    then have "\<bar>vs ! m + (t - sum_list vs)\<bar> \<le> 2 ^ 53" using e b by linarith
    moreover have "vs ! m + (t - sum_list vs) \<in> \<int>" using t S vs m by simp
    ultimately have "rnd (vs ! m + (t - sum_list vs)) = Fin (vs ! m + (t - sum_list vs))"
      by (rule rnd_Ints[rotated])
    then show ?thesis by simp
  qed
qed

lemma maxIdx64_fold_bound:
  "m < n \<Longrightarrow> \<forall>ri \<in> set ris. snd ri < n \<Longrightarrow>
   foldl (\<lambda>maxIdx ri. if gt64 (f (fst ri)) (f (arr ! maxIdx)) then snd ri else maxIdx) m ris < n"
  by (induction ris arbitrary: m) auto

lemma reduce_maxIdx64_less: "arr \<noteq> [] \<Longrightarrow> reduce_maxIdx64 f arr < length arr"
  unfolding reduce_maxIdx64_def
  by (rule maxIdx64_fold_bound) (auto simp: set_zip)

text \<open>One pass, seen on the list of the values it writes.\<close>

lemma pass_exact:
  assumes ds: "abs_sum ds = Some B" and int: "\<forall>d \<in> set ds. \<forall>v. d = Fin v \<longrightarrow> v \<in> \<int>"
    and b: "\<bar>of_int t\<bar> + B \<le> 2 ^ 53" and m: "m < length ds"
  shows "fin_sum (if \<not> seq64 (sub64 (Fin (of_int t)) (foldl add64 (Fin 0) ds)) (Fin 0)
                  then ds[m := add64 (ds ! m) (sub64 (Fin (of_int t)) (foldl add64 (Fin 0) ds))]
                  else ds) = Some (of_int t)"
proof -
  from abs_sum_Some[OF ds] obtain vs where vs: "ds = map Fin vs" "B = sum_list (map abs vs)" by blast
  have i: "\<forall>v \<in> set vs. v \<in> \<int>" using int vs(1) by auto
  have t: "(of_int t :: rat) \<in> \<int>" by simp
  have b': "\<bar>of_int t :: rat\<bar> + sum_list (map abs vs) \<le> 2 ^ 53" using b vs(2) by simp
  have m': "m < length vs" using m vs(1) by simp
  note c = correction_exact[OF i t b']
  let ?d = "of_int t - sum_list vs"
  have cur: "foldl add64 (Fin 0) ds = Fin (sum_list vs)" unfolding vs(1) by (rule c(1))
  have diff: "sub64 (Fin (of_int t)) (foldl add64 (Fin 0) ds) = Fin ?d" unfolding cur by (rule c(2))
  show ?thesis
  proof (cases "?d = 0")
    case True
    then show ?thesis unfolding diff by (simp add: seq64_def vs(1) fin_sum_map)
  next
    case False
    have "ds[m := add64 (ds ! m) (Fin ?d)] = map Fin (vs[m := vs ! m + ?d])"
      using m' c(3)[OF m'] by (simp add: vs(1) map_update)
    moreover have "sum_list (vs[m := vs ! m + ?d]) = of_int t"
      using sum_list_map_update[OF m', of "\<lambda>x. x" "vs ! m + ?d"] by simp
    ultimately show ?thesis using False unfolding diff by (simp add: seq64_def fin_sum_map)
  qed
qed

section \<open>The two passes on integers\<close>

lemma sales_scaled64_ints:
  "\<forall>d \<in> set (map sales_final64 (sales_scaled64 T xs)). \<forall>v. d = Fin v \<longrightarrow> v \<in> \<int>"
  by (auto simp: sales_scaled64_def Let_def dest: floor64_Ints)

lemma tax_scaled64_ints:
  "\<forall>d \<in> set (map tax_final64 (tax_scaled64 T xs)). \<forall>v. d = Fin v \<longrightarrow> v \<in> \<int>"
  by (auto simp: tax_scaled64_def Let_def dest: floor64_Ints)

lemma sales_targeting64_exact:
  assumes ne: "xs \<noteq> []"
    and ab: "abs_sum (map sales_final64 (sales_scaled64 (Fin (of_int t)) xs)) = Some B"
    and b: "\<bar>of_int t\<bar> + B \<le> 2 ^ 53"
  shows "\<exists>fd1. sales_targeting64 (Fin (of_int t)) xs = Inr fd1
     \<and> fin_sum (map sales_final64 fd1) = Some (of_int t)
     \<and> map s_tax_amt64 fd1 = map s_tax_amt64 xs
     \<and> map s_tax_pct64 fd1 = map s_tax_pct64 xs"
proof -
  let ?T = "Fin (of_int t)"
  let ?sc = "sales_scaled64 ?T xs"
  let ?ds = "map sales_final64 ?sc"
  let ?m = "reduce_maxIdx64 sales_final64 ?sc"
  let ?diff = "sub64 ?T (foldl add64 (Fin 0) ?ds)"
  have "?sc \<noteq> []" using ne by (simp add: sales_scaled64_def Let_def)
  then have m: "?m < length ?sc" by (rule reduce_maxIdx64_less)
  then have m': "?m < length ?ds" by simp
  have keep: "map s_tax_amt64 ?sc = map s_tax_amt64 xs" "map s_tax_pct64 ?sc = map s_tax_pct64 xs"
    by (simp_all add: sales_scaled64_def Let_def)
  let ?fd1 = "if \<not> seq64 ?diff (Fin 0)
              then ?sc[?m := (?sc ! ?m)\<lparr>sales_final64 := add64 (sales_final64 (?sc ! ?m)) ?diff\<rparr>]
              else ?sc"
  have res: "sales_targeting64 ?T xs = Inr ?fd1"
    using m by (simp add: sales_targeting64_def Let_def modify_at64_def reduce_sum64_map)
  have "map sales_final64 ?fd1 =
        (if \<not> seq64 ?diff (Fin 0) then ?ds[?m := add64 (?ds ! ?m) ?diff] else ?ds)"
    using m by (simp add: map_update)
  then have s: "fin_sum (map sales_final64 ?fd1) = Some (of_int t)"
    using pass_exact[OF ab sales_scaled64_ints b m'] by simp
  have k1: "map s_tax_amt64 ?fd1 = map s_tax_amt64 xs"
    using keep(1) by (simp add: map_update_same)
  have k2: "map s_tax_pct64 ?fd1 = map s_tax_pct64 xs"
    using keep(2) by (simp add: map_update_same)
  show ?thesis using res s k1 k2 by blast
qed

lemma tax_targeting64_exact:
  assumes ne: "taxableItems64 xs \<noteq> []"
    and ab: "abs_sum (map tax_final64 (tax_scaled64 (Fin (of_int t)) xs)) = Some B"
    and b: "\<bar>of_int t\<bar> + B \<le> 2 ^ 53"
  shows "\<exists>fd2. tax_targeting64 (Fin (of_int t)) xs = Inr fd2
     \<and> fin_sum (map tax_final64 fd2) = Some (of_int t)
     \<and> map sales_final64 fd2 = map sales_final64 xs"
proof -
  let ?T = "Fin (of_int t)"
  let ?sc = "tax_scaled64 ?T xs"
  let ?ds = "map tax_final64 ?sc"
  let ?m = "reduce_maxIdx64 tax_final64 ?sc"
  let ?diff = "sub64 ?T (foldl add64 (Fin 0) ?ds)"
  have "xs \<noteq> []" using ne by (auto simp: taxableItems64_def)
  then have "?sc \<noteq> []" by (simp add: tax_scaled64_def Let_def)
  then have m: "?m < length ?sc" by (rule reduce_maxIdx64_less)
  then have m': "?m < length ?ds" by simp
  have keep: "map sales_final64 ?sc = map sales_final64 xs"
    by (simp add: tax_scaled64_def Let_def)
  let ?fd2 = "if \<not> seq64 ?diff (Fin 0)
              then ?sc[?m := (?sc ! ?m)\<lparr>tax_final64 := add64 (tax_final64 (?sc ! ?m)) ?diff\<rparr>]
              else ?sc"
  have res: "tax_targeting64 ?T xs = Inr ?fd2"
    using m ne by (simp add: tax_targeting64_def Let_def modify_at64_def reduce_sum64_map)
  have "map tax_final64 ?fd2 =
        (if \<not> seq64 ?diff (Fin 0) then ?ds[?m := add64 (?ds ! ?m) ?diff] else ?ds)"
    using m by (simp add: map_update)
  then have s: "fin_sum (map tax_final64 ?fd2) = Some (of_int t)"
    using pass_exact[OF ab tax_scaled64_ints b m'] by simp
  have k: "map sales_final64 ?fd2 = map sales_final64 xs"
    using keep by (simp add: map_update_same)
  show ?thesis using res s k by blast
qed

text \<open>The tax pass reads the tax amounts and the tax rates only.\<close>

lemma taxable_amounts_cong:
  assumes "length ys = length xs"
    and "map s_tax_amt64 ys = map s_tax_amt64 xs" and "map s_tax_pct64 ys = map s_tax_pct64 xs"
  shows "map s_tax_amt64 (taxableItems64 ys) = map s_tax_amt64 (taxableItems64 xs)"
  using assms by (induction ys xs rule: list_induct2) (simp_all add: taxableItems64_def)

lemma tax_scaled64_cong:
  assumes "map s_tax_amt64 ys = map s_tax_amt64 xs" and "map s_tax_pct64 ys = map s_tax_pct64 xs"
  shows "map tax_final64 (tax_scaled64 T ys) = map tax_final64 (tax_scaled64 T xs)"
    and "(taxableItems64 ys = []) = (taxableItems64 xs = [])"
proof -
  have len: "length ys = length xs" using assms(1) by (rule map_eq_imp_length_eq)
  have tot: "reduce_sum64 s_tax_amt64 (taxableItems64 ys) = reduce_sum64 s_tax_amt64 (taxableItems64 xs)"
    unfolding reduce_sum64_map taxable_amounts_cong[OF len assms] ..
  have gen: "map (\<lambda>r. tax_final64 (if gt64 (s_tax_pct64 r) (Fin 0)
                   then r\<lparr>tax_final64 := floor64 (mul64 (s_tax_amt64 r) c)\<rparr>
                   else r\<lparr>tax_final64 := Fin 0\<rparr>)) ys
           = map (\<lambda>r. tax_final64 (if gt64 (s_tax_pct64 r) (Fin 0)
                   then r\<lparr>tax_final64 := floor64 (mul64 (s_tax_amt64 r) c)\<rparr>
                   else r\<lparr>tax_final64 := Fin 0\<rparr>)) xs" for c
    using len assms by (induction ys xs rule: list_induct2) simp_all
  show "map tax_final64 (tax_scaled64 T ys) = map tax_final64 (tax_scaled64 T xs)"
    by (simp add: tax_scaled64_def Let_def tot comp_def gen)
  have "map s_tax_pct64 (taxableItems64 ys) = map s_tax_pct64 (taxableItems64 xs)"
    using len assms by (induction ys xs rule: list_induct2) (simp_all add: taxableItems64_def)
  then have "length (taxableItems64 ys) = length (taxableItems64 xs)" by (rule map_eq_imp_length_eq)
  then show "(taxableItems64 ys = []) = (taxableItems64 xs = [])" by auto
qed

lemma exSmall_sales:
  "map sales_final64 (sales_scaled64 (Fin 900) exSmall) = [Fin 450, Fin 450]"
  by (simp add: exSmall_def d64_defs t64_defs fl_eval)

lemma exSmall_tax:
  "map tax_final64 (tax_scaled64 (Fin 100) exSmall) = [Fin 100, Fin 0]"
  by (simp add: exSmall_def d64_defs t64_defs fl_eval)

lemma exLarge_run: "targeting64 (Fin 9007199254740994) (Fin 10) exLargeTarget = Inr exLargeResult"
  by (simp add: exLargeTarget_def exLargeResult_def d64_defs t64_defs fl_eval upt_rec[of 0] upt_rec[of 1])

lemma exCredit_run: "targeting64 (Fin (4728779608739021 / 2 ^ 51)) (Fin 10) exCredit = Inr exCreditResult"
  by (simp add: exCredit_def exCreditResult_def d64_defs t64_defs fl_eval upt_rec[of 0] upt_rec[of 1])

text \<open>
  Claim C1, as amended. In binary64 the two passes reach their targets when the targets are
  integers and the sums stay within the integers that binary64 holds exactly: at least one
  record has a positive tax rate, the floored amounts of each pass are finite, and the
  absolute values of the floored amounts of a pass and of its target add up to at most
  \<open>2 ^ 53\<close>. Then both passes return, and the balanced sales amounts and the balanced tax
  amounts of all records, added without rounding, are \<open>targetSales\<close> and \<open>targetTax\<close>.
  The total sales amount need not be positive for this.
\<close>

theorem integer_targets_hit:
  assumes "taxableItems64 finalData \<noteq> []"
    and "abs_sum (map sales_final64 (sales_scaled64 (Fin (of_int targetSales)) finalData)) = Some floorSales"
    and "abs_sum (map tax_final64 (tax_scaled64 (Fin (of_int targetTax)) finalData)) = Some floorTax"
    and "\<bar>of_int targetSales\<bar> + floorSales \<le> 2 ^ 53"
    and "\<bar>of_int targetTax\<bar> + floorTax \<le> 2 ^ 53"
  shows "\<exists>fd. targeting64 (Fin (of_int targetSales)) (Fin (of_int targetTax)) finalData = Inr fd
     \<and> fin_sum (map sales_final64 fd) = Some (of_int targetSales)
     \<and> fin_sum (map tax_final64 fd) = Some (of_int targetTax)"
proof -
  have ne: "finalData \<noteq> []" using assms(1) by (auto simp: taxableItems64_def)
  from sales_targeting64_exact[OF ne assms(2,4)] obtain fd1 where
    1: "sales_targeting64 (Fin (of_int targetSales)) finalData = Inr fd1"
       "fin_sum (map sales_final64 fd1) = Some (of_int targetSales)"
       "map s_tax_amt64 fd1 = map s_tax_amt64 finalData"
       "map s_tax_pct64 fd1 = map s_tax_pct64 finalData"
    by blast
  note c = tax_scaled64_cong[OF 1(3,4)]
  have t: "taxableItems64 fd1 \<noteq> []" using c(2) assms(1) by simp
  have ab: "abs_sum (map tax_final64 (tax_scaled64 (Fin (of_int targetTax)) fd1)) = Some floorTax"
    unfolding c(1) by (rule assms(3))
  from tax_targeting64_exact[OF t ab assms(5)] obtain fd2 where
    2: "tax_targeting64 (Fin (of_int targetTax)) fd1 = Inr fd2"
       "fin_sum (map tax_final64 fd2) = Some (of_int targetTax)"
       "map sales_final64 fd2 = map sales_final64 fd1"
    by blast
  have "targeting64 (Fin (of_int targetSales)) (Fin (of_int targetTax)) finalData = Inr fd2"
    using 1(1) 2(1) by (simp add: targeting64_def)
  then show ?thesis using 1(2) 2(2,3) by simp
qed

theorem integer_targets_hit_witness:
  "taxableItems64 exSmall \<noteq> []
   \<and> abs_sum (map sales_final64 (sales_scaled64 (Fin 900) exSmall)) = Some 900
   \<and> abs_sum (map tax_final64 (tax_scaled64 (Fin 100) exSmall)) = Some 100
   \<and> \<bar>900 :: rat\<bar> + 900 \<le> 2 ^ 53 \<and> \<bar>100 :: rat\<bar> + 100 \<le> 2 ^ 53
   \<and> (\<exists>fd. targeting64 (Fin 900) (Fin 100) exSmall = Inr fd
        \<and> fin_sum (map sales_final64 fd) = Some 900 \<and> fin_sum (map tax_final64 fd) = Some 100)"
proof -
  have h1: "taxableItems64 exSmall \<noteq> []" by (simp add: exSmall_def taxableItems64_def d64_defs)
  have h2: "abs_sum (map sales_final64 (sales_scaled64 (Fin (of_int 900)) exSmall)) = Some 900"
    by (simp add: exSmall_sales)
  have h3: "abs_sum (map tax_final64 (tax_scaled64 (Fin (of_int 100)) exSmall)) = Some 100"
    by (simp add: exSmall_tax)
  have h4: "\<bar>of_int 900 :: rat\<bar> + 900 \<le> 2 ^ 53" by simp
  have h5: "\<bar>of_int 100 :: rat\<bar> + 100 \<le> 2 ^ 53" by simp
  from integer_targets_hit[OF h1 h2 h3 h4 h5] h1 h2 h3 show ?thesis by simp
qed

text \<open>
  The claim as stated fails in binary64. With sales amounts 1 and 4 and the target
  \<open>2 ^ 53 + 2\<close> the floored amounts are 1801439850948198 and 7205759403792795; their sum
  \<open>2 ^ 53 + 1\<close> is rounded to \<open>2 ^ 53\<close>, the correction is 2, and the balanced amounts add up
  to \<open>2 ^ 53 + 3\<close> (and to \<open>2 ^ 53 + 4\<close> when they are added in binary64). With sales
  amounts -1 and 3 and the target 2.1 the floored amounts are -2 and 3, the correction is
  1.1, and \<open>3 + 1.1\<close> is rounded down: the balanced amounts add up to 2.0999999999999996.
  In both runs the total sales amount is positive and both records have a positive tax rate.
\<close>

theorem targets_missed_counterexample:
  "taxableItems64 exLargeTarget \<noteq> []
   \<and> gt64 (reduce_sum64 s_total64 exLargeTarget) (Fin 0)
   \<and> targeting64 (Fin 9007199254740994) (Fin 10) exLargeTarget = Inr exLargeResult
   \<and> map sales_final64 exLargeResult = [Fin 1801439850948198, Fin 7205759403792797]
   \<and> fin_sum (map sales_final64 exLargeResult) = Some 9007199254740995
   \<and> reduce_sum64 sales_final64 exLargeResult = Fin 9007199254740996
   \<and> taxableItems64 exCredit \<noteq> []
   \<and> gt64 (reduce_sum64 s_total64 exCredit) (Fin 0)
   \<and> rnd (21 / 10) = Fin (4728779608739021 / 2 ^ 51)
   \<and> targeting64 (Fin (4728779608739021 / 2 ^ 51)) (Fin 10) exCredit = Inr exCreditResult
   \<and> map sales_final64 exCreditResult = [Fin (- 2), Fin (4616189618054758 / 2 ^ 50)]
   \<and> fin_sum (map sales_final64 exCreditResult) = Some (4728779608739020 / 2 ^ 51)
   \<and> reduce_sum64 sales_final64 exCreditResult = Fin (4728779608739020 / 2 ^ 51)"
proof -
  have a: "taxableItems64 exLargeTarget \<noteq> []" "gt64 (reduce_sum64 s_total64 exLargeTarget) (Fin 0)"
    by (simp_all add: exLargeTarget_def taxableItems64_def d64_defs fl_eval)
  have b: "map sales_final64 exLargeResult = [Fin 1801439850948198, Fin 7205759403792797]"
    "fin_sum (map sales_final64 exLargeResult) = Some 9007199254740995"
    "reduce_sum64 sales_final64 exLargeResult = Fin 9007199254740996"
    by (simp_all add: exLargeResult_def d64_defs fl_eval)
  have c: "taxableItems64 exCredit \<noteq> []" "gt64 (reduce_sum64 s_total64 exCredit) (Fin 0)"
    by (simp_all add: exCredit_def taxableItems64_def d64_defs fl_eval)
  have d: "rnd (21 / 10) = Fin (4728779608739021 / 2 ^ 51)" by (simp add: rnd_def fl_eval)
  have e: "map sales_final64 exCreditResult = [Fin (- 2), Fin (4616189618054758 / 2 ^ 50)]"
    "fin_sum (map sales_final64 exCreditResult) = Some (4728779608739020 / 2 ^ 51)"
    "reduce_sum64 sales_final64 exCreditResult = Fin (4728779608739020 / 2 ^ 51)"
    by (simp_all add: exCreditResult_def d64_defs fl_eval)
  show ?thesis using a b c d e exLarge_run exCredit_run by simp
qed

section \<open>One tax group in binary64\<close>
















section \<open>A group with one recipient\<close>




















end
